theory Spec2Isabelle
  imports Complex_Main
begin

text \<open>
  A shallow embedding of the voice-session hooks of the dashboard:
  \<^item> \<open>useSessionPersistence\<close> (session record in \<open>localStorage\<close>),
  \<^item> \<open>useVoiceWebSocket\<close> (the reconnecting transport),
  \<^item> \<open>useAudioManager\<close> (recording, silence detection, playback queue),
  \<^item> the message handler and the recording callback of the \<open>VoiceInteraction\<close> page.

  Every hook is a record of its React state cells and refs, extended by the part of the
  platform the handlers act on (sockets, timers, media elements) and by logs of the calls
  that leave the hook. A handler of the source is a function from state to state. The
  platform delivers events (a socket opens or closes, a timer fires, a media element ends)
  one at a time; a step function applies the handler the source registered for the event,
  and a run is a fold of the step function over a list of events.
\<close>

section \<open>Session persistence (useSessionPersistence)\<close>

text \<open>
  The hook keeps one React state cell \<open>sessionData\<close> and mirrors it into
  \<open>localStorage\<close> under \<open>storageKey\<close>. Times are the integer millisecond
  readings of \<open>Date.now()\<close>; a handler that reads the clock is given the reading as
  the argument \<open>now\<close>. A stored item is the JSON text of a \<open>SessionData\<close> object,
  modelled by the object itself.
  \<open>localStorage.setItem\<close> can throw (quota, private mode); \<open>storageWritable\<close> says
  whether it succeeds, and the \<open>try/catch\<close> of each handler is the \<open>else\<close> branch.
\<close>

record SessionData =
  sd_conversationId :: "string option"
  sd_leadId :: "string option"
  sd_timestamp :: int
  sd_expiresAt :: int

record persistence_options =
  sessionTimeout :: int
  storageKey :: string

definition DEFAULT_SESSION_TIMEOUT :: int where
  "DEFAULT_SESSION_TIMEOUT = 30 * 60 * 1000"

definition DEFAULT_STORAGE_KEY :: string where
  "DEFAULT_STORAGE_KEY = ''renus_voice_session''"

definition default_persistence_options :: persistence_options where
  "default_persistence_options =
     \<lparr>sessionTimeout = DEFAULT_SESSION_TIMEOUT, storageKey = DEFAULT_STORAGE_KEY\<rparr>"

record persistence =
  sessionData :: "SessionData option"
  localStorage :: "string \<Rightarrow> SessionData option"
  storageWritable :: bool

definition saveSession ::
  "persistence_options \<Rightarrow> int \<Rightarrow> string \<Rightarrow> string option \<Rightarrow> persistence \<Rightarrow> persistence" where
  "saveSession opts now conversationId leadId s =
     (let d = \<lparr>sd_conversationId = Some conversationId, sd_leadId = leadId,
                sd_timestamp = now, sd_expiresAt = now + sessionTimeout opts\<rparr>
      in if storageWritable s
         then s\<lparr>localStorage := (localStorage s)(storageKey opts \<mapsto> d),
                sessionData := Some d\<rparr>
         else s)"

definition clearSession :: "persistence_options \<Rightarrow> persistence \<Rightarrow> persistence" where
  "clearSession opts s =
     s\<lparr>localStorage := (localStorage s)(storageKey opts := None), sessionData := None\<rparr>"

definition refreshSession :: "persistence_options \<Rightarrow> int \<Rightarrow> persistence \<Rightarrow> persistence" where
  "refreshSession opts now s =
     (case sessionData s of
        None \<Rightarrow> s
      | Some d \<Rightarrow>
          (let updatedData = d\<lparr>sd_expiresAt := now + sessionTimeout opts\<rparr>
           in if storageWritable s
              then s\<lparr>localStorage := (localStorage s)(storageKey opts \<mapsto> updatedData),
                     sessionData := Some updatedData\<rparr>
              else s))"

definition isSessionValid :: "int \<Rightarrow> persistence \<Rightarrow> bool" where
  "isSessionValid now s =
     (case sessionData s of None \<Rightarrow> False | Some d \<Rightarrow> now < sd_expiresAt d)"

definition empty_persistence :: persistence where
  "empty_persistence =
     \<lparr>sessionData = None, localStorage = (\<lambda>k. None), storageWritable = True\<rparr>"

section \<open>Transport (useVoiceWebSocket)\<close>

text \<open>
  \<open>ConnectionState\<close> is the React state \<open>connectionState\<close> (\<open>Failed\<close> is the
  source's \<open>'error'\<close>), \<open>ws_error\<close> the React state \<open>error\<close>. Every
  \<open>new WebSocket\<close> gets the next index in \<open>sockets\<close>, which holds the
  \<open>readyState\<close> of each socket; \<open>wsRef\<close> is the index of the socket in
  \<open>wsRef.current\<close>. Every \<open>setTimeout\<close> gets the next index in \<open>timers\<close>,
  which records delay, callback and whether the timer is still pending;
  \<open>reconnectTimeoutRef\<close> is the handle of the last timer \<open>ws.onclose\<close> created.
  \<open>sent\<close> logs the frames handed to \<open>ws.send\<close> with the socket they went to,
  \<open>onError_calls\<close> the calls of the \<open>onError\<close> option. \<open>url_ok\<close> says whether
  \<open>new WebSocket(wsUrl)\<close> accepts the URL (otherwise it throws and \<open>connect\<close> runs
  its \<open>catch\<close> branch). Delays are natural numbers of milliseconds: for the default
  options every product \<open>reconnectDelay * Math.pow(2, n)\<close> is exact.
\<close>

datatype ConnectionState = Connecting | Connected | Disconnected | Failed

datatype ReadyState = CONNECTING | OPEN | CLOSING | CLOSED

datatype outbound = AudioMessage string string | TextMessage string

datatype timer_callback = AutoReconnect | ManualConnect

datatype timer_status = Pending | Fired | Cleared

record timer =
  t_delay :: nat
  t_callback :: timer_callback
  t_status :: timer_status

record ws_options =
  reconnectAttempts :: nat
  reconnectDelay :: nat
  url_ok :: bool

definition default_ws_options :: ws_options where
  "default_ws_options = \<lparr>reconnectAttempts = 3, reconnectDelay = 1000, url_ok = True\<rparr>"

record transport =
  connectionState :: ConnectionState
  ws_error :: "string option"
  sockets :: "ReadyState list"
  wsRef :: "nat option"
  reconnectCountRef :: nat
  reconnectTimeoutRef :: "nat option"
  timers :: "timer list"
  messageQueueRef :: "outbound list"
  sent :: "(nat \<times> outbound) list"
  onError_calls :: "string list"

definition initial_transport :: transport where
  "initial_transport =
     \<lparr>connectionState = Disconnected, ws_error = None, sockets = [], wsRef = None,
      reconnectCountRef = 0, reconnectTimeoutRef = None, timers = [],
      messageQueueRef = [], sent = [], onError_calls = []\<rparr>"

definition readyState :: "transport \<Rightarrow> nat \<Rightarrow> ReadyState" where
  "readyState s w = (if w < length (sockets s) then sockets s ! w else CLOSED)"

text \<open>The test \<open>wsRef.current?.readyState === WebSocket.OPEN\<close>.\<close>

definition ws_is_open :: "transport \<Rightarrow> bool" where
  "ws_is_open s = (case wsRef s of None \<Rightarrow> False | Some w \<Rightarrow> readyState s w = OPEN)"

definition setTimeout :: "timer_callback \<Rightarrow> nat \<Rightarrow> transport \<Rightarrow> nat \<times> transport" where
  "setTimeout cb delay s =
     (length (timers s),
      s\<lparr>timers := timers s @ [\<lparr>t_delay = delay, t_callback = cb, t_status = Pending\<rparr>]\<rparr>)"

definition timer_pending :: "transport \<Rightarrow> nat \<Rightarrow> bool" where
  "timer_pending s i = (i < length (timers s) \<and> t_status (timers s ! i) = Pending)"

definition clearTimeout :: "nat \<Rightarrow> transport \<Rightarrow> transport" where
  "clearTimeout i s =
     (if timer_pending s i
      then s\<lparr>timers := (timers s)[i := (timers s ! i)\<lparr>t_status := Cleared\<rparr>]\<rparr>
      else s)"

text \<open>\<open>ws.close()\<close>: an open or connecting socket starts closing; its close event
  comes later, as an event of its own.\<close>

definition ws_close :: "nat \<Rightarrow> transport \<Rightarrow> transport" where
  "ws_close w s =
     (if readyState s w = CONNECTING \<or> readyState s w = OPEN
      then s\<lparr>sockets := (sockets s)[w := CLOSING]\<rparr>
      else s)"

definition connect :: "ws_options \<Rightarrow> transport \<Rightarrow> transport" where
  "connect opts s =
     (if ws_is_open s then s
      else let s1 = s\<lparr>connectionState := Connecting, ws_error := None\<rparr>
           in if url_ok opts
              then s1\<lparr>sockets := sockets s1 @ [CONNECTING], wsRef := Some (length (sockets s1))\<rparr>
              else s1\<lparr>ws_error := Some ''Failed to connect'', connectionState := Failed,
                      onError_calls := onError_calls s1 @ [''Failed to connect'']\<rparr>)"

text \<open>The loop of \<open>ws.onopen\<close>:
  \<open>while (queue.length > 0) { msg = queue.shift(); if (msg && ws.readyState === OPEN) ws.send(msg) }\<close>.
  A queued message is an object, so \<open>msg\<close> is truthy.\<close>

function flush_queue :: "nat \<Rightarrow> transport \<Rightarrow> transport" where
  "flush_queue ws s =
     (case messageQueueRef s of
        [] \<Rightarrow> s
      | msg # rest \<Rightarrow>
          flush_queue ws
            (if readyState s ws = OPEN
             then s\<lparr>messageQueueRef := rest, sent := sent s @ [(ws, msg)]\<rparr>
             else s\<lparr>messageQueueRef := rest\<rparr>))"
  by pat_completeness auto
termination
  by (relation "measure (\<lambda>(ws, s). length (messageQueueRef s))") auto

declare flush_queue.simps [simp del]

definition ws_onopen :: "nat \<Rightarrow> transport \<Rightarrow> transport" where
  "ws_onopen ws s = flush_queue ws (s\<lparr>connectionState := Connected, reconnectCountRef := 0\<rparr>)"

definition ws_onerror :: "transport \<Rightarrow> transport" where
  "ws_onerror s =
     s\<lparr>ws_error := Some ''WebSocket error'', connectionState := Failed,
       onError_calls := onError_calls s @ [''WebSocket error'']\<rparr>"

definition ws_onclose :: "ws_options \<Rightarrow> transport \<Rightarrow> transport" where
  "ws_onclose opts s =
     (let s1 = s\<lparr>connectionState := Disconnected, wsRef := None\<rparr>
      in if reconnectCountRef s1 < reconnectAttempts opts
         then let delay = reconnectDelay opts * 2 ^ reconnectCountRef s1;
                  (tid, s2) = setTimeout AutoReconnect delay s1
              in s2\<lparr>reconnectTimeoutRef := Some tid\<rparr>
         else s1\<lparr>ws_error := Some ''Failed to reconnect after maximum attempts'',
                 onError_calls := onError_calls s1 @ [''Failed to reconnect after maximum attempts'']\<rparr>)"

text \<open>The two timer callbacks of the hook: \<open>() => { reconnectCountRef.current++; connect() }\<close>
  scheduled by \<open>ws.onclose\<close>, and \<open>connect\<close> scheduled by \<open>reconnect\<close>.\<close>

definition run_callback :: "ws_options \<Rightarrow> timer_callback \<Rightarrow> transport \<Rightarrow> transport" where
  "run_callback opts cb s =
     (case cb of
        AutoReconnect \<Rightarrow> connect opts (s\<lparr>reconnectCountRef := reconnectCountRef s + 1\<rparr>)
      | ManualConnect \<Rightarrow> connect opts s)"

definition disconnect :: "transport \<Rightarrow> transport" where
  "disconnect s =
     (let s1 = (case reconnectTimeoutRef s of Some tid \<Rightarrow> clearTimeout tid s | None \<Rightarrow> s);
          s2 = (case wsRef s1 of Some w \<Rightarrow> (ws_close w s1)\<lparr>wsRef := None\<rparr> | None \<Rightarrow> s1)
      in s2\<lparr>connectionState := Disconnected, reconnectCountRef := 0\<rparr>)"

definition sendMessage :: "outbound \<Rightarrow> transport \<Rightarrow> transport" where
  "sendMessage message s =
     (case wsRef s of
        Some w \<Rightarrow>
          if readyState s w = OPEN then s\<lparr>sent := sent s @ [(w, message)]\<rparr>
          else s\<lparr>messageQueueRef := messageQueueRef s @ [message]\<rparr>
      | None \<Rightarrow> s\<lparr>messageQueueRef := messageQueueRef s @ [message]\<rparr>)"

definition sendAudio :: "string \<Rightarrow> string \<Rightarrow> transport \<Rightarrow> transport" where
  "sendAudio audioData fmt s = sendMessage (AudioMessage audioData fmt) s"

definition sendText :: "string \<Rightarrow> transport \<Rightarrow> transport" where
  "sendText txt s = sendMessage (TextMessage txt) s"

definition reconnect :: "transport \<Rightarrow> transport" where
  "reconnect s =
     (let s1 = disconnect s;
          s2 = s1\<lparr>reconnectCountRef := 0\<rparr>
      in snd (setTimeout ManualConnect 100 s2))"

text \<open>
  The events of the transport. \<open>Opened w\<close>, \<open>Errored w\<close> and \<open>Closed w\<close> are the
  browser's events on socket \<open>w\<close>: the browser sets the socket's \<open>readyState\<close> and
  then calls the handler the hook attached in \<open>connect\<close>. A socket opens only while
  connecting and closes once. \<open>TimerFires i\<close> runs the callback of timer \<open>i\<close> if it
  is still pending. The other events are calls of the hook's own functions.
\<close>

datatype ws_event =
    Connect | Opened nat | Errored nat | Closed nat | TimerFires nat
  | Disconnect | Send outbound | Reconnect

fun ws_step :: "ws_options \<Rightarrow> transport \<Rightarrow> ws_event \<Rightarrow> transport" where
  "ws_step opts s Connect = connect opts s"
| "ws_step opts s (Opened w) =
     (if readyState s w = CONNECTING
      then ws_onopen w (s\<lparr>sockets := (sockets s)[w := OPEN]\<rparr>) else s)"
| "ws_step opts s (Errored w) = (if w < length (sockets s) then ws_onerror s else s)"
| "ws_step opts s (Closed w) =
     (if w < length (sockets s) \<and> sockets s ! w \<noteq> CLOSED
      then ws_onclose opts (s\<lparr>sockets := (sockets s)[w := CLOSED]\<rparr>) else s)"
| "ws_step opts s (TimerFires i) =
     (if timer_pending s i
      then run_callback opts (t_callback (timers s ! i))
             (s\<lparr>timers := (timers s)[i := (timers s ! i)\<lparr>t_status := Fired\<rparr>]\<rparr>)
      else s)"
| "ws_step opts s Disconnect = disconnect s"
| "ws_step opts s (Send m) = sendMessage m s"
| "ws_step opts s Reconnect = reconnect s"

definition ws_run :: "ws_options \<Rightarrow> transport \<Rightarrow> ws_event list \<Rightarrow> transport" where
  "ws_run opts s es = foldl (ws_step opts) s es"

text \<open>
  A failed automatic attempt: the socket in \<open>wsRef\<close> closes unexpectedly, and the timer
  that \<open>ws.onclose\<close> left in \<open>reconnectTimeoutRef\<close> fires (which counts the attempt and
  calls \<open>connect\<close>). \<open>failed_attempts opts n\<close> is \<open>n\<close> such attempts in a row, every
  new socket closing again before it opens. \<open>attempt_live\<close> says that \<open>wsRef\<close> holds
  a socket that has not closed yet.
\<close>

definition unexpected_close :: "ws_options \<Rightarrow> transport \<Rightarrow> transport" where
  "unexpected_close opts s =
     (case wsRef s of None \<Rightarrow> s | Some w \<Rightarrow> ws_step opts s (Closed w))"

definition scheduled_timer_fires :: "ws_options \<Rightarrow> transport \<Rightarrow> transport" where
  "scheduled_timer_fires opts s =
     (case reconnectTimeoutRef s of None \<Rightarrow> s | Some tid \<Rightarrow> ws_step opts s (TimerFires tid))"

definition failed_attempt :: "ws_options \<Rightarrow> transport \<Rightarrow> transport" where
  "failed_attempt opts s =
     (case wsRef s of
        None \<Rightarrow> s
      | Some w \<Rightarrow> scheduled_timer_fires opts (unexpected_close opts s))"

fun failed_attempts :: "ws_options \<Rightarrow> nat \<Rightarrow> transport \<Rightarrow> transport" where
  "failed_attempts opts 0 s = s"
| "failed_attempts opts (Suc n) s = failed_attempts opts n (failed_attempt opts s)"

definition attempt_live :: "transport \<Rightarrow> bool" where
  "attempt_live s =
     (case wsRef s of None \<Rightarrow> False | Some w \<Rightarrow> w < length (sockets s) \<and> sockets s ! w \<noteq> CLOSED)"

section \<open>Audio capture and playback (useAudioManager)\<close>

text \<open>
  The state cells \<open>isRecording\<close>, \<open>isPlaying\<close>, \<open>audioLevel\<close>, \<open>error\<close> (here
  \<open>au_error\<close>) and the refs of the hook, with the platform objects behind them:
  \<^item> \<open>mediaRecorderRef\<close> is the state of the \<open>MediaRecorder\<close> in the ref (\<open>None\<close>
    before the first recording); \<open>pendingStopEvents\<close> counts the \<open>stop\<close> events the
    recorder still has to dispatch, one for every call of \<open>mediaRecorder.stop()\<close>;
  \<^item> \<open>streamRef\<close>, \<open>audioContextRef\<close>, \<open>analyserRef\<close> say whether the ref holds an
    object; \<open>liveStreams\<close> and \<open>openContexts\<close> count the streams and audio contexts
    not yet released;
  \<^item> \<open>silenceTimers\<close> holds every timer \<open>monitorAudioLevel\<close> created,
    \<open>silenceTimeoutRef\<close> the handle in the ref; \<open>intervals\<close> and
    \<open>chunkIntervalRef\<close> do the same for \<open>setInterval\<close>;
  \<^item> \<open>rafQueue\<close> holds the callbacks registered with \<open>requestAnimationFrame\<close>;
  \<^item> \<open>elements\<close> holds every \<open>Audio\<close> element created, with its payload and
    whether it is playing, has ended or has failed; \<open>currentAudioRef\<close> is the index in
    the ref;
  \<^item> \<open>completed\<close> logs the calls of \<open>onRecordingComplete\<close> (the assembled
    recording), \<open>thrown\<close> the errors the async functions rejected with.

  A callback made by \<open>useCallback\<close> reads the state cells of the render that created it.
  \<open>monitorAudioLevel\<close> and \<open>playAudio\<close> therefore take the value of
  \<open>isRecording\<close> resp. \<open>isPlaying\<close> they captured as an argument. The level is the
  number \<open>Math.min(100, (rms / 255) * 100)\<close> computed from the analyser's data; it is
  given to \<open>monitorAudioLevel\<close> as a real number. \<open>atob_ok\<close> says which payloads
  \<open>atob\<close> decodes (it throws on the others).
\<close>

record AudioConfig =
  sampleRate :: nat
  channels :: nat
  chunkSize :: nat
  chunkInterval :: nat
  silenceThreshold :: real
  silenceDuration :: nat

definition DEFAULT_AUDIO_CONFIG :: AudioConfig where
  "DEFAULT_AUDIO_CONFIG =
     \<lparr>sampleRate = 16000, channels = 1, chunkSize = 1600, chunkInterval = 100,
      silenceThreshold = 0.01, silenceDuration = 1500\<rparr>"

record audio_options =
  config :: AudioConfig
  has_onAudioChunk :: bool
  has_onRecordingComplete :: bool
  atob_ok :: "string \<Rightarrow> bool"

record media_env =
  getUserMedia_ok :: bool
  webm_supported :: bool

datatype RecordingState = RecorderInactive | RecorderRecording

datatype playback_status = Playing | Finished | Broken

record silence_timer =
  st_delay :: nat
  st_status :: timer_status

record audio =
  isRecording :: bool
  isPlaying :: bool
  audioLevel :: real
  au_error :: "string option"
  mediaRecorderRef :: "RecordingState option"
  audioContextRef :: bool
  analyserRef :: bool
  streamRef :: bool
  chunksRef :: "string list"
  audioQueueRef :: "string list"
  currentAudioRef :: "nat option"
  silenceTimeoutRef :: "nat option"
  chunkIntervalRef :: "nat option"
  silenceTimers :: "silence_timer list"
  intervals :: "bool list"
  rafQueue :: "bool list"
  liveStreams :: nat
  openContexts :: nat
  pendingStopEvents :: nat
  elements :: "(string \<times> playback_status) list"
  completed :: "string list"
  thrown :: "string list"

definition initial_audio :: audio where
  "initial_audio =
     \<lparr>isRecording = False, isPlaying = False, audioLevel = 0, au_error = None,
      mediaRecorderRef = None, audioContextRef = False, analyserRef = False,
      streamRef = False, chunksRef = [], audioQueueRef = [], currentAudioRef = None,
      silenceTimeoutRef = None, chunkIntervalRef = None, silenceTimers = [],
      intervals = [], rafQueue = [], liveStreams = 0, openContexts = 0,
      pendingStopEvents = 0, elements = [], completed = [], thrown = []\<rparr>"

definition silence_pending :: "audio \<Rightarrow> nat \<Rightarrow> bool" where
  "silence_pending s i = (i < length (silenceTimers s) \<and> st_status (silenceTimers s ! i) = Pending)"

definition clear_silence_timer :: "nat \<Rightarrow> audio \<Rightarrow> audio" where
  "clear_silence_timer i s =
     (if silence_pending s i
      then s\<lparr>silenceTimers := (silenceTimers s)[i := (silenceTimers s ! i)\<lparr>st_status := Cleared\<rparr>]\<rparr>
      else s)"

definition clearInterval :: "nat \<Rightarrow> audio \<Rightarrow> audio" where
  "clearInterval i s = s\<lparr>intervals := (intervals s)[i := False]\<rparr>"

definition stopRecording :: "audio \<Rightarrow> audio" where
  "stopRecording s =
     (let s1 = (case chunkIntervalRef s of
                  Some i \<Rightarrow> (clearInterval i s)\<lparr>chunkIntervalRef := None\<rparr>
                | None \<Rightarrow> s);
          s2 = (case silenceTimeoutRef s1 of
                  Some t \<Rightarrow> (clear_silence_timer t s1)\<lparr>silenceTimeoutRef := None\<rparr>
                | None \<Rightarrow> s1);
          s3 = (case mediaRecorderRef s2 of
                  Some RecorderRecording \<Rightarrow>
                    s2\<lparr>mediaRecorderRef := Some RecorderInactive,
                       pendingStopEvents := pendingStopEvents s2 + 1\<rparr>
                | _ \<Rightarrow> s2);
          s4 = (if streamRef s3
                then s3\<lparr>liveStreams := liveStreams s3 - 1, streamRef := False\<rparr> else s3);
          s5 = (if audioContextRef s4
                then s4\<lparr>openContexts := openContexts s4 - 1, audioContextRef := False\<rparr> else s4)
      in s5\<lparr>isRecording := False, audioLevel := 0\<rparr>)"

text \<open>
  \<open>monitorAudioLevel\<close>, with the \<open>isRecording\<close> of its closure as first argument
  after the configuration. The timer it arms calls \<open>stopRecording\<close>. Its last statement,
  \<open>if (isRecording) requestAnimationFrame(monitorAudioLevel)\<close>, registers the same
  closure again.
\<close>

definition monitorAudioLevel :: "AudioConfig \<Rightarrow> bool \<Rightarrow> real \<Rightarrow> audio \<Rightarrow> audio" where
  "monitorAudioLevel cfg captured_isRecording level s =
     (if \<not> analyserRef s then s
      else let s1 = s\<lparr>audioLevel := level\<rparr>;
               s2 = (if level < silenceThreshold cfg * 100
                     then (case silenceTimeoutRef s1 of
                             None \<Rightarrow>
                               s1\<lparr>silenceTimers := silenceTimers s1
                                     @ [\<lparr>st_delay = silenceDuration cfg, st_status = Pending\<rparr>],
                                  silenceTimeoutRef := Some (length (silenceTimers s1))\<rparr>
                           | Some t \<Rightarrow> s1)
                     else (case silenceTimeoutRef s1 of
                             Some t \<Rightarrow> (clear_silence_timer t s1)\<lparr>silenceTimeoutRef := None\<rparr>
                           | None \<Rightarrow> s1))
           in if captured_isRecording
              then s2\<lparr>rafQueue := rafQueue s2 @ [captured_isRecording]\<rparr>
              else s2)"

text \<open>
  \<open>startRecording\<close>, from the point where \<open>getUserMedia\<close> has answered. The
  \<open>monitorAudioLevel\<close> it calls is the one of its own render, so the \<open>isRecording\<close>
  that closure reads is the value before \<open>setIsRecording(true)\<close>. \<open>level\<close> is the
  level the analyser gives at that call. When \<open>getUserMedia\<close> or the
  \<open>MediaRecorder\<close> constructor throws, the \<open>catch\<close> branch records the error.
\<close>

definition startRecording :: "audio_options \<Rightarrow> media_env \<Rightarrow> real \<Rightarrow> audio \<Rightarrow> audio" where
  "startRecording opts env level s =
     (let captured_isRecording = isRecording s;
          s0 = s\<lparr>au_error := None\<rparr>
      in if \<not> getUserMedia_ok env
         then s0\<lparr>au_error := Some ''getUserMedia failed'',
                 thrown := thrown s0 @ [''getUserMedia failed'']\<rparr>
         else let s1 = s0\<lparr>streamRef := True, liveStreams := liveStreams s0 + 1,
                           audioContextRef := True, openContexts := openContexts s0 + 1,
                           analyserRef := True\<rparr>
              in if \<not> webm_supported env
                 then s1\<lparr>au_error := Some ''MediaRecorder failed'',
                         thrown := thrown s1 @ [''MediaRecorder failed'']\<rparr>
                 else let s2 = s1\<lparr>mediaRecorderRef := Some RecorderRecording, chunksRef := [],
                                   isRecording := True\<rparr>;
                          s3 = monitorAudioLevel (config opts) captured_isRecording level s2
                      in if has_onAudioChunk opts
                         then s3\<lparr>intervals := intervals s3 @ [True],
                                 chunkIntervalRef := Some (length (intervals s3))\<rparr>
                         else s3)"

definition mediaRecorder_ondataavailable :: "string \<Rightarrow> audio \<Rightarrow> audio" where
  "mediaRecorder_ondataavailable blob s =
     (if length blob > 0 then s\<lparr>chunksRef := chunksRef s @ [blob]\<rparr> else s)"

definition mediaRecorder_onstop :: "audio_options \<Rightarrow> audio \<Rightarrow> audio" where
  "mediaRecorder_onstop opts s =
     (let audioBlob = concat (chunksRef s);
          s1 = (if has_onRecordingComplete opts
                then s\<lparr>completed := completed s @ [audioBlob]\<rparr> else s)
      in s1\<lparr>chunksRef := []\<rparr>)"

text \<open>
  \<open>playAudio\<close>, with the \<open>isPlaying\<close> of its closure as an argument, up to the point
  where the element has been created and \<open>audio.play()\<close> called. \<open>audio_onended\<close>
  and \<open>audio_onerror\<close> are the two handlers it attaches. The \<open>playAudio\<close> that
  \<open>onended\<close> calls for the next payload is the closure that created the element, and
  that closure read \<open>isPlaying = false\<close>. \<open>audio_onerror\<close> includes the \<open>catch\<close>
  branch the rejected promise reaches; \<open>play_rejected\<close> is that branch when
  \<open>audio.play()\<close> itself rejects.
\<close>

definition playAudio :: "audio_options \<Rightarrow> bool \<Rightarrow> string \<Rightarrow> audio \<Rightarrow> audio" where
  "playAudio opts captured_isPlaying base64Audio s =
     (let s0 = s\<lparr>au_error := None\<rparr>
      in if captured_isPlaying
         then s0\<lparr>audioQueueRef := audioQueueRef s0 @ [base64Audio]\<rparr>
         else let s1 = s0\<lparr>isPlaying := True\<rparr>
              in if \<not> atob_ok opts base64Audio
                 then s1\<lparr>au_error := Some ''atob failed'', isPlaying := False,
                         thrown := thrown s1 @ [''atob failed'']\<rparr>
                 else s1\<lparr>elements := elements s1 @ [(base64Audio, Playing)],
                         currentAudioRef := Some (length (elements s1))\<rparr>)"

definition audio_onended :: "audio_options \<Rightarrow> audio \<Rightarrow> audio" where
  "audio_onended opts s =
     (let s1 = s\<lparr>isPlaying := False, currentAudioRef := None\<rparr>
      in case audioQueueRef s1 of
           [] \<Rightarrow> s1
         | nextAudio # rest \<Rightarrow>
             (let s2 = s1\<lparr>audioQueueRef := rest\<rparr>
              in if nextAudio \<noteq> [] then playAudio opts False nextAudio s2 else s2))"

definition audio_onerror :: "audio \<Rightarrow> audio" where
  "audio_onerror s =
     (let s1 = s\<lparr>isPlaying := False, currentAudioRef := None\<rparr>
      in s1\<lparr>au_error := Some ''Audio playback failed'', isPlaying := False,
            thrown := thrown s1 @ [''Audio playback failed'']\<rparr>)"

definition play_rejected :: "audio \<Rightarrow> audio" where
  "play_rejected s =
     s\<lparr>au_error := Some ''Failed to play audio'', isPlaying := False,
       thrown := thrown s @ [''Failed to play audio'']\<rparr>"

text \<open>
  The events of the audio manager. \<open>StartRecording env level\<close> and
  \<open>StopRecording\<close> are calls of the hook's functions. A call of \<open>playAudio\<close>
  goes through the callback of some render, and that callback reads the \<open>isPlaying\<close>
  its closure captured: \<open>PlayAudioCaptured c b\<close> is a call through a callback that
  captured \<open>isPlaying = c\<close> (for instance a second call made before the re-render that
  follows \<open>setIsPlaying\<close>), and \<open>PlayAudio b\<close> is the call through the callback of
  a render that has seen the current value.
  \<open>AnimationFrame level\<close> runs the callbacks registered with
  \<open>requestAnimationFrame\<close>, \<open>SilenceTimeout i\<close> fires silence timer \<open>i\<close> if it is
  still pending, \<open>DataAvailable\<close> and \<open>RecorderStopped\<close> are the recorder's events,
  \<open>Ended i\<close>, \<open>PlaybackError i\<close> and \<open>PlayRejected i\<close> those of the \<open>Audio\<close>
  element \<open>i\<close> while it plays.
\<close>

datatype audio_event =
    StartRecording media_env real
  | StopRecording
  | AnimationFrame real
  | SilenceTimeout nat
  | DataAvailable string
  | RecorderStopped
  | PlayAudio string
  | PlayAudioCaptured bool string
  | Ended nat
  | PlaybackError nat
  | PlayRejected nat

definition element_playing :: "audio \<Rightarrow> nat \<Rightarrow> bool" where
  "element_playing s i = (i < length (elements s) \<and> snd (elements s ! i) = Playing)"

definition set_element :: "nat \<Rightarrow> playback_status \<Rightarrow> audio \<Rightarrow> audio" where
  "set_element i st s = s\<lparr>elements := (elements s)[i := (fst (elements s ! i), st)]\<rparr>"

fun audio_step :: "audio_options \<Rightarrow> audio \<Rightarrow> audio_event \<Rightarrow> audio" where
  "audio_step opts s (StartRecording env level) = startRecording opts env level s"
| "audio_step opts s StopRecording = stopRecording s"
| "audio_step opts s (AnimationFrame level) =
     foldl (\<lambda>s' captured. monitorAudioLevel (config opts) captured level s')
       (s\<lparr>rafQueue := []\<rparr>) (rafQueue s)"
| "audio_step opts s (SilenceTimeout i) =
     (if silence_pending s i
      then stopRecording
             (s\<lparr>silenceTimers := (silenceTimers s)[i := (silenceTimers s ! i)\<lparr>st_status := Fired\<rparr>]\<rparr>)
      else s)"
| "audio_step opts s (DataAvailable blob) = mediaRecorder_ondataavailable blob s"
| "audio_step opts s RecorderStopped =
     (if pendingStopEvents s > 0
      then mediaRecorder_onstop opts (s\<lparr>pendingStopEvents := pendingStopEvents s - 1\<rparr>)
      else s)"
| "audio_step opts s (PlayAudio base64Audio) = playAudio opts (isPlaying s) base64Audio s"
| "audio_step opts s (PlayAudioCaptured captured_isPlaying base64Audio) =
     playAudio opts captured_isPlaying base64Audio s"
| "audio_step opts s (Ended i) =
     (if element_playing s i then audio_onended opts (set_element i Finished s) else s)"
| "audio_step opts s (PlaybackError i) =
     (if element_playing s i then audio_onerror (set_element i Broken s) else s)"
| "audio_step opts s (PlayRejected i) =
     (if element_playing s i then play_rejected (set_element i Broken s) else s)"

definition audio_run :: "audio_options \<Rightarrow> audio \<Rightarrow> audio_event list \<Rightarrow> audio" where
  "audio_run opts s es = foldl (audio_step opts) s es"


text \<open>The payloads a list of events hands to \<open>playAudio\<close>, in order; and the events of
  an undisturbed playback: a call, through an up-to-date callback, with a non-empty
  payload that \<open>atob\<close> decodes, or the natural end of an element.\<close>

fun enqueued :: "audio_event list \<Rightarrow> string list" where
  "enqueued [] = []"
| "enqueued (PlayAudio base64Audio # es) = base64Audio # enqueued es"
| "enqueued (PlayAudioCaptured captured_isPlaying base64Audio # es) = base64Audio # enqueued es"
| "enqueued (e # es) = enqueued es"

fun playback_event :: "audio_options \<Rightarrow> audio_event \<Rightarrow> bool" where
  "playback_event opts (PlayAudio base64Audio) = (base64Audio \<noteq> [] \<and> atob_ok opts base64Audio)"
| "playback_event opts (Ended i) = True"
| "playback_event opts e = False"

definition default_audio_options :: audio_options where
  "default_audio_options =
     \<lparr>config = DEFAULT_AUDIO_CONFIG, has_onAudioChunk = True, has_onRecordingComplete = True,
      atob_ok = (\<lambda>b. True)\<rparr>"

definition mic_ok :: media_env where
  "mic_ok = \<lparr>getUserMedia_ok = True, webm_supported = True\<rparr>"

definition playback_inv :: "audio_options \<Rightarrow> audio \<Rightarrow> bool" where
  "playback_inv opts s =
     ((isPlaying s \<longleftrightarrow> elements s \<noteq> [] \<and> snd (last (elements s)) = Playing)
      \<and> (\<forall>e \<in> set (butlast (elements s)). snd e = Finished)
      \<and> (elements s \<noteq> [] \<longrightarrow> snd (last (elements s)) \<noteq> Broken)
      \<and> (\<not> isPlaying s \<longrightarrow> audioQueueRef s = [])
      \<and> (\<forall>b \<in> set (audioQueueRef s). b \<noteq> [] \<and> atob_ok opts b))"

section \<open>The page's handlers (VoiceInteraction)\<close>

text \<open>
  \<open>controller\<close> is the page's \<open>interactionState\<close> (where \<open>vi_error\<close> is its field
  \<open>error\<close>) and \<open>currentTranscription\<close>, with logs of the calls of \<open>playAudio\<close>,
  \<open>saveSession\<close> and \<open>toast\<close>; the analytics sink is left out. A \<open>VoiceMessage\<close>
  carries the fields the handlers read. An entry's id is the clock reading and the suffix
  the template string appends to it.

  \<open>truthy\<close> is JavaScript's test of an optional string: absent and empty are falsy.

  In the response branch of \<open>onMessage\<close> the source computes
  \<open>message.conversation_id || prev.conversationId\<close> and
  \<open>message.lead_id || prev.leadId\<close> before it calls \<open>setInteractionState\<close>. The name
  \<open>prev\<close> is bound only as the parameter of the arrow function passed to
  \<open>setInteractionState\<close> further down; where these two expressions stand it is
  unbound. \<open>||\<close> evaluates its right operand only when the left one is falsy, and
  evaluating an unbound name raises a \<open>ReferenceError\<close>: \<open>or_unbound_prev\<close>.

  \<open>ws_onmessage\<close> is the transport's \<open>ws.onmessage\<close> as the page sees it: it calls
  \<open>onStateChange\<close> for a state message, then \<open>onMessage\<close>, inside a \<open>try\<close> whose
  \<open>catch\<close> logs the error and goes on. \<open>onRecordingComplete\<close> reads the
  \<open>currentTranscription\<close> of the render that created it, given as an argument.
\<close>

datatype AgentState = Idle | Listening | Thinking | Speaking

datatype message_type =
  Response | StateMsg | ErrorMsg | AudioChunk | Transcription | ResponseComplete

record VoiceMessage =
  m_type :: message_type
  m_state :: "AgentState option"
  m_text :: "string option"
  audio_base64 :: "string option"
  conversation_id :: "string option"
  m_functionalities :: "string list option"
  lead_id :: "string option"
  m_error :: "string option"

datatype speaker = User | Agent

record ConversationEntry =
  e_id :: "int \<times> string"
  e_timestamp :: int
  e_speaker :: speaker
  e_text :: string
  e_state :: AgentState

record controller =
  agentState :: AgentState
  conversationId :: "string option"
  leadId :: "string option"
  transcriptions :: "ConversationEntry list"
  functionalities :: "string list"
  isActive :: bool
  isConnected :: bool
  vi_error :: "string option"
  currentTranscription :: string
  playAudio_calls :: "string list"
  saveSession_calls :: "(string \<times> string option) list"
  toasts :: "string list"

datatype js_error = ReferenceError string

definition truthy :: "string option \<Rightarrow> bool" where
  "truthy x = (case x of Some (c # cs) \<Rightarrow> True | _ \<Rightarrow> False)"

definition str :: "string option \<Rightarrow> string" where
  "str x = (case x of Some v \<Rightarrow> v | None \<Rightarrow> [])"

definition or_unbound_prev :: "string option \<Rightarrow> js_error + string" where
  "or_unbound_prev x = (if truthy x then Inr (str x) else Inl (ReferenceError ''prev''))"

definition onMessage :: "int \<Rightarrow> VoiceMessage \<Rightarrow> controller \<Rightarrow> js_error + controller" where
  "onMessage now message c =
     (case (if m_type message = Response \<and> truthy (m_text message)
            then (let entry = \<lparr>e_id = (now, ''-agent''), e_timestamp = now, e_speaker = Agent,
                               e_text = str (m_text message),
                               e_state = (case m_state message of Some st \<Rightarrow> st | None \<Rightarrow> Speaking)\<rparr>
                  in case or_unbound_prev (conversation_id message) of
                       Inl err \<Rightarrow> Inl err
                     | Inr newConversationId \<Rightarrow>
                        (case or_unbound_prev (lead_id message) of
                           Inl err \<Rightarrow> Inl err
                         | Inr newLeadId \<Rightarrow>
                            (let c1 = c\<lparr>transcriptions := transcriptions c @ [entry],
                                        conversationId := Some newConversationId,
                                        leadId := Some newLeadId,
                                        functionalities :=
                                          (case m_functionalities message of
                                             Some fs \<Rightarrow> fs | None \<Rightarrow> functionalities c)\<rparr>;
                                 c2 = (if newConversationId \<noteq> []
                                       then c1\<lparr>saveSession_calls := saveSession_calls c1
                                                 @ [(newConversationId, Some newLeadId)]\<rparr>
                                       else c1);
                                 c3 = (if truthy (audio_base64 message)
                                       then c2\<lparr>playAudio_calls := playAudio_calls c2
                                                 @ [str (audio_base64 message)]\<rparr>
                                       else c2)
                             in Inr (c3\<lparr>currentTranscription := []\<rparr>))))
            else Inr c) of
        Inl err \<Rightarrow> Inl err
      | Inr c4 \<Rightarrow>
          (let c5 = (if m_type message = Transcription \<and> truthy (m_text message)
                     then c4\<lparr>currentTranscription := str (m_text message)\<rparr> else c4);
               c6 = (if m_type message = ErrorMsg
                     then c5\<lparr>toasts := toasts c5
                               @ [if truthy (m_error message) then str (m_error message)
                                  else ''Ocorreu um erro''],
                             vi_error := (if truthy (m_error message) then m_error message
                                          else None)\<rparr>
                     else c5)
           in Inr c6))"

definition onStateChange :: "AgentState \<Rightarrow> controller \<Rightarrow> controller" where
  "onStateChange st c = c\<lparr>agentState := st\<rparr>"

definition ws_onmessage :: "int \<Rightarrow> VoiceMessage \<Rightarrow> controller \<Rightarrow> controller" where
  "ws_onmessage now message c =
     (let c1 = (if m_type message = StateMsg
                then (case m_state message of Some st \<Rightarrow> onStateChange st c | None \<Rightarrow> c)
                else c)
      in case onMessage now message c1 of Inl err \<Rightarrow> c1 | Inr c2 \<Rightarrow> c2)"

definition onRecordingComplete :: "int \<Rightarrow> string \<Rightarrow> string \<Rightarrow> controller \<Rightarrow> controller" where
  "onRecordingComplete now captured_transcription audioData c =
     (let entry = \<lparr>e_id = (now, ''-user''), e_timestamp = now, e_speaker = User,
                    e_text = (if captured_transcription \<noteq> [] then captured_transcription
                              else ''Processando...''),
                    e_state = Listening\<rparr>
      in c\<lparr>transcriptions := transcriptions c @ [entry]\<rparr>)"

text \<open>The inbound messages of a list, each with the clock reading at its arrival,
  delivered in order.\<close>

fun inbound :: "controller \<Rightarrow> (int \<times> VoiceMessage) list \<Rightarrow> controller" where
  "inbound c [] = c"
| "inbound c ((now, message) # rest) = inbound (ws_onmessage now message c) rest"

definition initial_controller :: controller where
  "initial_controller =
     \<lparr>agentState = Idle, conversationId = None, leadId = None, transcriptions = [],
      functionalities = [], isActive = False, isConnected = False, vi_error = None,
      currentTranscription = [], playAudio_calls = [], saveSession_calls = [], toasts = []\<rparr>"

text \<open>The two messages of the scenario: a transcription with a text, and a response
  with text, audio payload, conversation id and (optionally) lead id, every other field
  absent. \<open>ola\<close> is the response's text, in UTF-8.\<close>

definition transcription_message :: "string \<Rightarrow> VoiceMessage" where
  "transcription_message txt =
     \<lparr>m_type = Transcription, m_state = None, m_text = Some txt, audio_base64 = None,
      conversation_id = None, m_functionalities = None, lead_id = None, m_error = None\<rparr>"

definition response_message ::
  "string \<Rightarrow> string \<Rightarrow> string \<Rightarrow> string option \<Rightarrow> VoiceMessage" where
  "response_message txt seg cid lid =
     \<lparr>m_type = Response, m_state = None, m_text = Some txt, audio_base64 = Some seg,
      conversation_id = Some cid, m_functionalities = None, lead_id = lid, m_error = None\<rparr>"

definition ola :: string where
  "ola = ''ol'' @ [CHR 0xC3, CHR 0xA1]"

section \<open>Theorems\<close>

subsection \<open>Session persistence\<close>

lemma sessionData_saveSession:
  "storageWritable s \<Longrightarrow>
   sessionData (saveSession opts t0 cid lid s) =
     Some \<lparr>sd_conversationId = Some cid, sd_leadId = lid, sd_timestamp = t0,
           sd_expiresAt = t0 + sessionTimeout opts\<rparr>"
  by (simp add: saveSession_def Let_def)

text \<open>
  Claim C8. A session record saved at time \<open>t0\<close> by a hook configured with timeout
  \<open>T\<close> (the write to storage succeeding) is reported valid by \<open>isSessionValid\<close> at
  every probe time in \<open>[t0, t0 + T)\<close> and invalid at every probe time \<open>\<ge> t0 + T\<close>;
  with no record loaded the check reports invalid.
\<close>

theorem C8_session_validity_window:
  assumes "storageWritable s"
  shows "(\<forall>p. t0 \<le> p \<and> p < t0 + sessionTimeout opts \<longrightarrow>
            isSessionValid p (saveSession opts t0 cid lid s))
       \<and> (\<forall>p. t0 + sessionTimeout opts \<le> p \<longrightarrow>
            \<not> isSessionValid p (saveSession opts t0 cid lid s))
       \<and> (sessionData s' = None \<longrightarrow> \<not> isSessionValid p' s')"
  using assms by (simp add: isSessionValid_def sessionData_saveSession)

text \<open>Claim C8 with the default timeout of 30 minutes, for a record saved at time 1000:
  valid at 1000 and at 1800999, invalid at 1801000; and invalid when nothing is loaded.\<close>

theorem C8_session_validity_window_witness:
  "isSessionValid 1000 (saveSession default_persistence_options 1000 ''c1'' None empty_persistence)
   \<and> isSessionValid 1800999 (saveSession default_persistence_options 1000 ''c1'' None empty_persistence)
   \<and> \<not> isSessionValid 1801000 (saveSession default_persistence_options 1000 ''c1'' None empty_persistence)
   \<and> \<not> isSessionValid 5 empty_persistence"
proof -
  have w: "storageWritable empty_persistence"
    by (simp add: empty_persistence_def)
  have T: "sessionTimeout default_persistence_options = 1800000"
    by (simp add: default_persistence_options_def DEFAULT_SESSION_TIMEOUT_def)
  have n: "sessionData empty_persistence = None"
    by (simp add: empty_persistence_def)
  from C8_session_validity_window [OF w, of 1000 default_persistence_options "''c1''" None
      empty_persistence 5]
  show ?thesis unfolding T using n by simp
qed

subsection \<open>Transport\<close>

lemma readyState_frame:
  "readyState (messageQueueRef_update f s) w = readyState s w"
  "readyState (sent_update g s) w = readyState s w"
  "readyState (connectionState_update h s) w = readyState s w"
  "readyState (reconnectCountRef_update k s) w = readyState s w"
  by (simp_all add: readyState_def)

lemma flush_queue_open:
  "readyState s ws = OPEN \<Longrightarrow>
   flush_queue ws s =
     s\<lparr>messageQueueRef := [], sent := sent s @ map (Pair ws) (messageQueueRef s)\<rparr>"
proof (induction "messageQueueRef s" arbitrary: s)
  case Nil
  then show ?case by (simp add: flush_queue.simps [of ws s])
next
  case (Cons msg rest)
  let ?s' = "s\<lparr>messageQueueRef := rest, sent := sent s @ [(ws, msg)]\<rparr>"
  have q: "messageQueueRef s = msg # rest" using Cons.hyps(2) by simp
  have r: "readyState ?s' ws = OPEN" using Cons.prems by (simp add: readyState_frame)
  have "flush_queue ws s = flush_queue ws ?s'"
    using Cons.prems q by (simp add: flush_queue.simps [of ws s])
  also have "\<dots> = ?s'\<lparr>messageQueueRef := [], sent := sent ?s' @ map (Pair ws) (messageQueueRef ?s')\<rparr>"
    by (rule Cons.hyps(1) [OF _ r]) simp
  finally show ?case using q by simp
qed

lemma sendMessage_not_open:
  "\<not> ws_is_open s \<Longrightarrow> sendMessage m s = s\<lparr>messageQueueRef := messageQueueRef s @ [m]\<rparr>"
  by (simp add: sendMessage_def ws_is_open_def split: option.splits)

lemma sendMessage_open:
  "wsRef s = Some w \<Longrightarrow> readyState s w = OPEN \<Longrightarrow>
   sendMessage m s = s\<lparr>sent := sent s @ [(w, m)]\<rparr>"
  by (simp add: sendMessage_def)

lemma opened_flushes:
  assumes "readyState s w = CONNECTING"
  shows "ws_step opts s (Opened w) =
           s\<lparr>sockets := (sockets s)[w := OPEN], connectionState := Connected,
             reconnectCountRef := 0, messageQueueRef := [],
             sent := sent s @ map (Pair w) (messageQueueRef s)\<rparr>"
proof -
  have w: "w < length (sockets s)"
    using assms by (simp add: readyState_def split: if_splits)
  let ?s1 = "s\<lparr>sockets := (sockets s)[w := OPEN], connectionState := Connected, reconnectCountRef := 0\<rparr>"
  have "readyState ?s1 w = OPEN" using w by (simp add: readyState_def)
  from flush_queue_open [OF this] show ?thesis
    using assms by (simp add: ws_onopen_def)
qed

lemma sends_while_closed:
  "\<not> ws_is_open s \<Longrightarrow>
   foldl (\<lambda>s m. sendMessage m s) s ms = s\<lparr>messageQueueRef := messageQueueRef s @ ms\<rparr>"
proof (induction ms arbitrary: s)
  case Nil
  then show ?case by simp
next
  case (Cons m ms)
  have n: "\<not> ws_is_open (s\<lparr>messageQueueRef := messageQueueRef s @ [m]\<rparr>)"
    using Cons.prems by (simp add: ws_is_open_def readyState_frame split: option.splits)
  show ?case
    using Cons.IH [OF n] Cons.prems by (simp add: sendMessage_not_open)
qed

text \<open>
  What \<open>sendMessage\<close> and \<open>ws.onopen\<close> do in terms of \<open>wsRef\<close>: a message sent
  while the socket in \<open>wsRef\<close> is not open is appended to \<open>messageQueueRef\<close>; while
  it is open the message is transmitted at once; when a connecting socket opens, the
  whole queue is transmitted on it in queue order.
\<close>

lemma send_queue_fifo:
  "(\<not> ws_is_open s \<longrightarrow>
      sendMessage m s = s\<lparr>messageQueueRef := messageQueueRef s @ [m]\<rparr>)
   \<and> (wsRef s = Some w \<and> readyState s w = OPEN \<longrightarrow>
      sendMessage m s = s\<lparr>sent := sent s @ [(w, m)]\<rparr>)
   \<and> (readyState s w' = CONNECTING \<longrightarrow>
      sent (ws_step opts s (Opened w')) = sent s @ map (Pair w') (messageQueueRef s)
      \<and> messageQueueRef (ws_step opts s (Opened w')) = [])
   \<and> (\<not> ws_is_open s \<and> readyState s w' = CONNECTING \<longrightarrow>
      sent (ws_step opts (foldl (\<lambda>s m. sendMessage m s) s ms) (Opened w'))
        = sent s @ map (Pair w') (messageQueueRef s @ ms)
      \<and> messageQueueRef (ws_step opts (foldl (\<lambda>s m. sendMessage m s) s ms) (Opened w')) = [])"
proof (intro conjI impI)
  show "sendMessage m s = s\<lparr>messageQueueRef := messageQueueRef s @ [m]\<rparr>" if "\<not> ws_is_open s"
    using that by (rule sendMessage_not_open)
  show "sendMessage m s = s\<lparr>sent := sent s @ [(w, m)]\<rparr>"
    if "wsRef s = Some w \<and> readyState s w = OPEN"
    using that by (simp add: sendMessage_open)
  show "sent (ws_step opts s (Opened w')) = sent s @ map (Pair w') (messageQueueRef s)"
    if "readyState s w' = CONNECTING"
    unfolding opened_flushes [OF that] by simp
  show "messageQueueRef (ws_step opts s (Opened w')) = []" if "readyState s w' = CONNECTING"
    unfolding opened_flushes [OF that] by simp
next
  assume a: "\<not> ws_is_open s \<and> readyState s w' = CONNECTING"
  let ?s = "foldl (\<lambda>s m. sendMessage m s) s ms"
  have e: "?s = s\<lparr>messageQueueRef := messageQueueRef s @ ms\<rparr>"
    using a by (simp add: sends_while_closed)
  have r: "readyState ?s w' = CONNECTING" using a unfolding e by (simp add: readyState_frame)
  show "sent (ws_step opts ?s (Opened w')) = sent s @ map (Pair w') (messageQueueRef s @ ms)"
    unfolding opened_flushes [OF r] by (simp add: e)
  show "messageQueueRef (ws_step opts ?s (Opened w')) = []"
    unfolding opened_flushes [OF r] by simp
qed

lemma unexpected_close_below:
  assumes "attempt_live s" "reconnectCountRef s < reconnectAttempts opts"
  shows "timers (unexpected_close opts s) =
           timers s @ [\<lparr>t_delay = reconnectDelay opts * 2 ^ reconnectCountRef s,
                        t_callback = AutoReconnect, t_status = Pending\<rparr>]"
    and "reconnectCountRef (unexpected_close opts s) = reconnectCountRef s"
    and "reconnectTimeoutRef (unexpected_close opts s) = Some (length (timers s))"
    and "wsRef (unexpected_close opts s) = None"
    and "length (sockets (unexpected_close opts s)) = length (sockets s)"
  using assms
  by (auto simp: attempt_live_def unexpected_close_def ws_onclose_def setTimeout_def Let_def
      split: option.splits)

lemma unexpected_close_exhausted:
  assumes "attempt_live s" "\<not> reconnectCountRef s < reconnectAttempts opts"
  shows "timers (unexpected_close opts s) = timers s"
    and "reconnectCountRef (unexpected_close opts s) = reconnectCountRef s"
    and "reconnectTimeoutRef (unexpected_close opts s) = reconnectTimeoutRef s"
    and "wsRef (unexpected_close opts s) = None"
    and "ws_error (unexpected_close opts s) = Some ''Failed to reconnect after maximum attempts''"
  using assms
  by (auto simp: attempt_live_def unexpected_close_def ws_onclose_def setTimeout_def Let_def
      split: option.splits)

lemma failed_attempt_below:
  assumes "attempt_live s" "reconnectCountRef s < reconnectAttempts opts" "url_ok opts"
  shows "timers (failed_attempt opts s) =
           timers s @ [\<lparr>t_delay = reconnectDelay opts * 2 ^ reconnectCountRef s,
                        t_callback = AutoReconnect, t_status = Fired\<rparr>]"
    and "reconnectCountRef (failed_attempt opts s) = Suc (reconnectCountRef s)"
    and "attempt_live (failed_attempt opts s)"
    and "reconnectTimeoutRef (failed_attempt opts s) = Some (length (timers s))"
proof -
  let ?c = "unexpected_close opts s"
  note c = unexpected_close_below [OF assms(1,2)]
  have p: "timer_pending ?c (length (timers s))"
    by (simp add: timer_pending_def c)
  have n: "\<not> ws_is_open (?c\<lparr>timers := (timers ?c)[length (timers s) := (timers ?c ! length (timers s))\<lparr>t_status := Fired\<rparr>],
              reconnectCountRef := reconnectCountRef ?c + 1\<rparr>)"
    by (simp add: ws_is_open_def c)
  have f: "failed_attempt opts s = ws_step opts ?c (TimerFires (length (timers s)))"
    using assms(1) by (simp add: failed_attempt_def scheduled_timer_fires_def c attempt_live_def
        split: option.splits)
  have cb: "t_callback (timers ?c ! length (timers s)) = AutoReconnect"
    by (simp add: c)
  show "timers (failed_attempt opts s) =
           timers s @ [\<lparr>t_delay = reconnectDelay opts * 2 ^ reconnectCountRef s,
                        t_callback = AutoReconnect, t_status = Fired\<rparr>]"
    unfolding f using p n cb assms(3) by (simp add: run_callback_def connect_def Let_def c)
  show "reconnectCountRef (failed_attempt opts s) = Suc (reconnectCountRef s)"
    unfolding f using p n cb assms(3) by (simp add: run_callback_def connect_def Let_def c)
  show "attempt_live (failed_attempt opts s)"
    unfolding f using p n cb assms(3)
    by (simp add: run_callback_def connect_def Let_def c attempt_live_def nth_append)
  show "reconnectTimeoutRef (failed_attempt opts s) = Some (length (timers s))"
    unfolding f using p n cb assms(3) by (simp add: run_callback_def connect_def Let_def c)
qed

lemma failed_attempts_below:
  assumes "url_ok opts"
  shows "attempt_live s \<Longrightarrow> reconnectCountRef s + n \<le> reconnectAttempts opts \<Longrightarrow>
     timers (failed_attempts opts n s) =
       timers s @ map (\<lambda>k. \<lparr>t_delay = reconnectDelay opts * 2 ^ k,
                              t_callback = AutoReconnect, t_status = Fired\<rparr>)
                    [reconnectCountRef s ..< reconnectCountRef s + n]
     \<and> reconnectCountRef (failed_attempts opts n s) = reconnectCountRef s + n
     \<and> attempt_live (failed_attempts opts n s)"
proof (induction n arbitrary: s)
  case 0
  then show ?case by simp
next
  case (Suc n)
  let ?s = "failed_attempt opts s"
  let ?F = "\<lambda>k. \<lparr>t_delay = reconnectDelay opts * 2 ^ k,
                  t_callback = AutoReconnect, t_status = Fired\<rparr>"
  let ?c = "reconnectCountRef s"
  have lt: "?c < reconnectAttempts opts" using Suc.prems by simp
  note fa = failed_attempt_below [OF Suc.prems(1) lt assms]
  have le: "reconnectCountRef ?s + n \<le> reconnectAttempts opts" using Suc.prems fa by simp
  note ih = Suc.IH [OF fa(3) le]
  have up: "[?c ..< ?c + Suc n] = ?c # [Suc ?c ..< Suc ?c + n]"
    by (simp add: upt_conv_Cons)
  have "timers (failed_attempts opts (Suc n) s) = timers ?s @ map ?F [Suc ?c ..< Suc ?c + n]"
    using ih by (simp add: fa(2))
  also have "\<dots> = timers s @ map ?F (?c # [Suc ?c ..< Suc ?c + n])"
    by (simp add: fa(1))
  finally have t: "timers (failed_attempts opts (Suc n) s) = timers s @ map ?F [?c ..< ?c + Suc n]"
    by (simp only: up)
  have c: "reconnectCountRef (failed_attempts opts (Suc n) s) = ?c + Suc n"
    using ih by (simp add: fa(2))
  have l: "attempt_live (failed_attempts opts (Suc n) s)"
    using ih by simp
  from t c l show ?case by blast
qed

lemma failed_attempts_add:
  "failed_attempts opts (a + b) s = failed_attempts opts b (failed_attempts opts a s)"
  by (induction a arbitrary: s) simp_all

lemma failed_attempts_Suc_right:
  "failed_attempts opts (Suc n) s = failed_attempt opts (failed_attempts opts n s)"
  using failed_attempts_add [of opts n 1 s] by simp

lemma failed_attempts_idle:
  "wsRef s = None \<Longrightarrow> failed_attempts opts n s = s"
  by (induction n) (simp_all add: failed_attempt_def)

lemma failed_attempt_exhausted:
  assumes "attempt_live s" "\<not> reconnectCountRef s < reconnectAttempts opts"
    and "reconnectTimeoutRef s = Some tid" "\<not> timer_pending s tid"
  shows "failed_attempt opts s = unexpected_close opts s"
proof -
  note c = unexpected_close_exhausted [OF assms(1,2)]
  have "\<not> timer_pending (unexpected_close opts s) tid"
    using assms(4) by (simp add: timer_pending_def c)
  then show ?thesis
    using assms(1,3) by (simp add: failed_attempt_def scheduled_timer_fires_def c attempt_live_def
        split: option.splits)
qed

lemma default_ws_options_simps:
  "reconnectAttempts default_ws_options = 3"
  "reconnectDelay default_ws_options = 1000"
  "url_ok default_ws_options"
  by (simp_all add: default_ws_options_def)

lemma three_failed_attempts:
  assumes "reconnectCountRef s = 0" "attempt_live s"
  shows "timers (failed_attempts default_ws_options 3 s) =
           timers s @ map (\<lambda>k. \<lparr>t_delay = 1000 * 2 ^ k, t_callback = AutoReconnect,
                                 t_status = Fired\<rparr>) [0..<3]"
    and "reconnectCountRef (failed_attempts default_ws_options 3 s) = 3"
    and "attempt_live (failed_attempts default_ws_options 3 s)"
    and "reconnectTimeoutRef (failed_attempts default_ws_options 3 s) = Some (length (timers s) + 2)"
proof -
  have le: "reconnectCountRef s + 3 \<le> reconnectAttempts default_ws_options"
    using assms(1) by (simp add: default_ws_options_simps)
  note b = failed_attempts_below [OF default_ws_options_simps(3) assms(2) le]
  show "timers (failed_attempts default_ws_options 3 s) =
           timers s @ map (\<lambda>k. \<lparr>t_delay = 1000 * 2 ^ k, t_callback = AutoReconnect,
                                 t_status = Fired\<rparr>) [0..<3]"
    using b assms(1) by (simp add: default_ws_options_simps)
  show "reconnectCountRef (failed_attempts default_ws_options 3 s) = 3"
    using b assms(1) by simp
  show "attempt_live (failed_attempts default_ws_options 3 s)"
    using b by simp
  have le2: "reconnectCountRef s + 2 \<le> reconnectAttempts default_ws_options"
    using assms(1) by (simp add: default_ws_options_simps)
  note b2 = failed_attempts_below [OF default_ws_options_simps(3) assms(2) le2]
  have lt: "reconnectCountRef (failed_attempts default_ws_options 2 s) < reconnectAttempts default_ws_options"
    using b2 assms(1) by (simp add: default_ws_options_simps)
  have l2: "attempt_live (failed_attempts default_ws_options 2 s)" using b2 by simp
  have "failed_attempts default_ws_options 3 s
          = failed_attempt default_ws_options (failed_attempts default_ws_options 2 s)"
    using failed_attempts_Suc_right [of default_ws_options 2 s] by (simp add: numeral_3_eq_3 numeral_2_eq_2)
  then show "reconnectTimeoutRef (failed_attempts default_ws_options 3 s) = Some (length (timers s) + 2)"
    using failed_attempt_below(4) [OF l2 lt default_ws_options_simps(3)] b2 by simp
qed

lemma fourth_close_schedules_nothing:
  assumes "reconnectCountRef s = 0" "attempt_live s"
  shows "failed_attempt default_ws_options (failed_attempts default_ws_options 3 s)
           = unexpected_close default_ws_options (failed_attempts default_ws_options 3 s)"
    and "timers (unexpected_close default_ws_options (failed_attempts default_ws_options 3 s))
           = timers (failed_attempts default_ws_options 3 s)"
    and "wsRef (unexpected_close default_ws_options (failed_attempts default_ws_options 3 s)) = None"
    and "ws_error (unexpected_close default_ws_options (failed_attempts default_ws_options 3 s))
           = Some ''Failed to reconnect after maximum attempts''"
proof -
  let ?s3 = "failed_attempts default_ws_options 3 s"
  note t = three_failed_attempts [OF assms]
  have ex: "\<not> reconnectCountRef ?s3 < reconnectAttempts default_ws_options"
    by (simp add: t default_ws_options_simps)
  have np: "\<not> timer_pending ?s3 (length (timers s) + 2)"
    by (simp add: timer_pending_def t nth_append)
  show "failed_attempt default_ws_options ?s3 = unexpected_close default_ws_options ?s3"
    by (rule failed_attempt_exhausted [OF t(3) ex t(4) np])
  show "timers (unexpected_close default_ws_options ?s3) = timers ?s3"
    by (rule unexpected_close_exhausted(1) [OF t(3) ex])
  show "wsRef (unexpected_close default_ws_options ?s3) = None"
    by (rule unexpected_close_exhausted(4) [OF t(3) ex])
  show "ws_error (unexpected_close default_ws_options ?s3)
           = Some ''Failed to reconnect after maximum attempts''"
    by (rule unexpected_close_exhausted(5) [OF t(3) ex])
qed

lemma failed_attempts_delays:
  assumes "reconnectCountRef s = 0" "attempt_live s"
  shows "map t_delay (drop (length (timers s)) (timers (failed_attempts default_ws_options n s)))
           = map (\<lambda>k. 1000 * 2 ^ k) [0..<min n 3]"
proof (cases "n \<le> 3")
  case True
  then have le: "reconnectCountRef s + n \<le> reconnectAttempts default_ws_options"
    using assms(1) by (simp add: default_ws_options_simps)
  from failed_attempts_below [OF default_ws_options_simps(3) assms(2) le] True
  show ?thesis using assms(1) by (simp add: default_ws_options_simps comp_def min_def)
next
  case False
  then obtain k where n: "n = 3 + Suc k"
    by (metis add_Suc_right less_imp_Suc_add not_le_imp_less)
  let ?s3 = "failed_attempts default_ws_options 3 s"
  let ?s4 = "unexpected_close default_ws_options ?s3"
  note f = fourth_close_schedules_nothing [OF assms]
  have "failed_attempts default_ws_options n s = failed_attempts default_ws_options k ?s4"
    unfolding n failed_attempts_add by (simp add: f(1))
  also have "\<dots> = ?s4" by (rule failed_attempts_idle [OF f(3)])
  finally have "timers (failed_attempts default_ws_options n s) = timers ?s3"
    by (simp add: f(2))
  then show ?thesis
    using three_failed_attempts(1) [OF assms] False by (simp add: comp_def min_def)
qed

lemma nth_attempt:
  assumes "reconnectCountRef s = 0" "attempt_live s" "1 \<le> N" "N \<le> 3"
  shows "timers (unexpected_close default_ws_options (failed_attempts default_ws_options (N - 1) s))
           = timers (failed_attempts default_ws_options (N - 1) s)
             @ [\<lparr>t_delay = 1000 * 2 ^ (N - 1), t_callback = AutoReconnect, t_status = Pending\<rparr>]"
    and "reconnectCountRef (unexpected_close default_ws_options
           (failed_attempts default_ws_options (N - 1) s)) = N - 1"
    and "reconnectCountRef (failed_attempts default_ws_options N s) = N"
    and "attempt_live (failed_attempts default_ws_options N s)"
proof -
  let ?b = "failed_attempts default_ws_options (N - 1) s"
  have le: "reconnectCountRef s + (N - 1) \<le> reconnectAttempts default_ws_options"
    using assms by (simp add: default_ws_options_simps)
  note b = failed_attempts_below [OF default_ws_options_simps(3) assms(2) le]
  have c: "reconnectCountRef ?b = N - 1" using b assms(1) by simp
  have lt: "reconnectCountRef ?b < reconnectAttempts default_ws_options"
    using c assms by (simp add: default_ws_options_simps)
  have l: "attempt_live ?b" using b by simp
  note u = unexpected_close_below [OF l lt]
  show "timers (unexpected_close default_ws_options ?b)
           = timers ?b @ [\<lparr>t_delay = 1000 * 2 ^ (N - 1), t_callback = AutoReconnect, t_status = Pending\<rparr>]"
    using u(1) [unfolded c] by (simp add: default_ws_options_simps)
  show "reconnectCountRef (unexpected_close default_ws_options ?b) = N - 1"
    using u(2) c by simp
  have le': "reconnectCountRef s + N \<le> reconnectAttempts default_ws_options"
    using assms by (simp add: default_ws_options_simps)
  note b' = failed_attempts_below [OF default_ws_options_simps(3) assms(2) le']
  show "reconnectCountRef (failed_attempts default_ws_options N s) = N"
    using b' assms(1) by simp
  show "attempt_live (failed_attempts default_ws_options N s)"
    using b' by simp
qed

lemma disconnect_frame:
  "wsRef (disconnect s) = None"
  "reconnectCountRef (disconnect s) = 0"
  "messageQueueRef (disconnect s) = messageQueueRef s"
  "sent (disconnect s) = sent s"
  "length (timers (disconnect s)) = length (timers s)"
  "length (sockets (disconnect s)) = length (sockets s)"
  "connectionState (disconnect s) = Disconnected"
  by (simp_all add: disconnect_def clearTimeout_def ws_close_def Let_def split: option.splits)

lemma reconnect_effects:
  "reconnectCountRef (reconnect s) = 0"
  "timers (reconnect s) = timers (disconnect s)
      @ [\<lparr>t_delay = 100, t_callback = ManualConnect, t_status = Pending\<rparr>]"
  "wsRef (reconnect s) = None"
  "sockets (reconnect s) = sockets (disconnect s)"
  by (simp_all add: reconnect_def setTimeout_def Let_def disconnect_frame)

lemma reconnect_retries:
  assumes "url_ok opts"
  shows "wsRef (ws_step opts (reconnect s) (TimerFires (length (timers s)))) = Some (length (sockets s))"
    and "readyState (ws_step opts (reconnect s) (TimerFires (length (timers s)))) (length (sockets s))
           = CONNECTING"
    and "reconnectCountRef (ws_step opts (reconnect s) (TimerFires (length (timers s)))) = 0"
proof -
  let ?r = "reconnect s"
  let ?i = "length (timers s)"
  have p: "timer_pending ?r ?i"
    by (simp add: timer_pending_def reconnect_effects disconnect_frame nth_append)
  have cb: "t_callback (timers ?r ! ?i) = ManualConnect"
    by (simp add: reconnect_effects disconnect_frame nth_append)
  have n: "\<not> ws_is_open (?r\<lparr>timers := (timers ?r)[?i := (timers ?r ! ?i)\<lparr>t_status := Fired\<rparr>]\<rparr>)"
    by (simp add: ws_is_open_def reconnect_effects)
  have e: "ws_step opts ?r (TimerFires ?i)
             = connect opts (?r\<lparr>timers := (timers ?r)[?i := (timers ?r ! ?i)\<lparr>t_status := Fired\<rparr>]\<rparr>)"
    using p cb by (simp add: run_callback_def)
  show "wsRef (ws_step opts ?r (TimerFires ?i)) = Some (length (sockets s))"
    unfolding e using n assms by (simp add: connect_def Let_def reconnect_effects disconnect_frame)
  show "readyState (ws_step opts ?r (TimerFires ?i)) (length (sockets s)) = CONNECTING"
    unfolding e using n assms
    by (simp add: connect_def Let_def reconnect_effects disconnect_frame readyState_def nth_append)
  show "reconnectCountRef (ws_step opts ?r (TimerFires ?i)) = 0"
    unfolding e using n assms by (simp add: connect_def Let_def reconnect_effects)
qed

text \<open>
  Consecutive failed attempts with the default options (3 attempts, base delay 1000 ms),
  from a state whose retry counter is 0 and whose current socket has not closed, when no
  other socket's close event interferes: the timers scheduled have the delays 1000, 2000,
  4000 and there is never a fourth; the \<open>N\<close>th close leaves the counter at \<open>N - 1\<close>
  and the counter becomes \<open>N\<close> when its timer fires; the close after three failed
  attempts schedules nothing and reports the failure; every open event resets the counter;
  \<open>reconnect\<close> sets the counter to 0 at once and retries through a timer of 100 ms.
\<close>

lemma consecutive_failed_attempts_backoff:
  assumes "reconnectCountRef s = 0" and "attempt_live s"
  shows "(\<forall>n. map t_delay (drop (length (timers s))
                (timers (failed_attempts default_ws_options n s)))
              = map (\<lambda>k. 1000 * 2 ^ k) [0..<min n 3])
     \<and> (\<forall>N. 1 \<le> N \<and> N \<le> 3 \<longrightarrow>
           (let before = failed_attempts default_ws_options (N - 1) s;
                closed = unexpected_close default_ws_options before
            in timers closed = timers before
                 @ [\<lparr>t_delay = 1000 * 2 ^ (N - 1), t_callback = AutoReconnect,
                     t_status = Pending\<rparr>]
               \<and> reconnectCountRef closed = N - 1
               \<and> reconnectCountRef (failed_attempts default_ws_options N s) = N
               \<and> attempt_live (failed_attempts default_ws_options N s)))
     \<and> (let s3 = failed_attempts default_ws_options 3 s;
             s4 = unexpected_close default_ws_options s3
         in timers s4 = timers s3 \<and> wsRef s4 = None
            \<and> ws_error s4 = Some ''Failed to reconnect after maximum attempts'')
     \<and> (readyState t w = CONNECTING \<longrightarrow>
           reconnectCountRef (ws_step default_ws_options t (Opened w)) = 0)
     \<and> reconnectCountRef (reconnect t) = 0
     \<and> timers (reconnect t) = timers (disconnect t)
           @ [\<lparr>t_delay = 100, t_callback = ManualConnect, t_status = Pending\<rparr>]
     \<and> (let r = ws_step default_ws_options (reconnect t) (TimerFires (length (timers t)))
        in wsRef r = Some (length (sockets t))
           \<and> readyState r (length (sockets t)) = CONNECTING
           \<and> reconnectCountRef r = 0)"
proof (intro conjI allI impI)
  fix n
  show "map t_delay (drop (length (timers s)) (timers (failed_attempts default_ws_options n s)))
          = map (\<lambda>k. 1000 * 2 ^ k) [0..<min n 3]"
    by (rule failed_attempts_delays [OF assms])
next
  fix N :: nat
  assume "1 \<le> N \<and> N \<le> 3"
  then have N: "1 \<le> N" "N \<le> 3" by simp_all
  show "let before = failed_attempts default_ws_options (N - 1) s;
            closed = unexpected_close default_ws_options before
        in timers closed = timers before
             @ [\<lparr>t_delay = 1000 * 2 ^ (N - 1), t_callback = AutoReconnect, t_status = Pending\<rparr>]
           \<and> reconnectCountRef closed = N - 1
           \<and> reconnectCountRef (failed_attempts default_ws_options N s) = N
           \<and> attempt_live (failed_attempts default_ws_options N s)"
    unfolding Let_def using nth_attempt [OF assms N] by blast
next
  show "let s3 = failed_attempts default_ws_options 3 s;
            s4 = unexpected_close default_ws_options s3
        in timers s4 = timers s3 \<and> wsRef s4 = None
           \<and> ws_error s4 = Some ''Failed to reconnect after maximum attempts''"
    unfolding Let_def using fourth_close_schedules_nothing [OF assms] by blast
next
  assume r: "readyState t w = CONNECTING"
  show "reconnectCountRef (ws_step default_ws_options t (Opened w)) = 0"
    unfolding opened_flushes [OF r] by simp
next
  show "reconnectCountRef (reconnect t) = 0"
    by (rule reconnect_effects)
  show "timers (reconnect t) = timers (disconnect t)
          @ [\<lparr>t_delay = 100, t_callback = ManualConnect, t_status = Pending\<rparr>]"
    by (rule reconnect_effects)
  show "let r = ws_step default_ws_options (reconnect t) (TimerFires (length (timers t)))
        in wsRef r = Some (length (sockets t))
           \<and> readyState r (length (sockets t)) = CONNECTING
           \<and> reconnectCountRef r = 0"
    unfolding Let_def using reconnect_retries [OF default_ws_options_simps(3)] by blast
qed

lemma disconnect_effects:
  "reconnectTimeoutRef s = Some tid \<Longrightarrow> \<not> timer_pending (disconnect s) tid"
  "reconnectCountRef (disconnect s) = 0"
  "messageQueueRef (disconnect s) = messageQueueRef s"
  "sent (disconnect s) = sent s"
  by (simp_all add: disconnect_def clearTimeout_def ws_close_def timer_pending_def Let_def
      split: option.splits)

lemmas transport_eval =
  ws_run_def connect_def disconnect_def ws_onclose_def ws_close_def ws_is_open_def
  readyState_def setTimeout_def clearTimeout_def timer_pending_def run_callback_def
  default_ws_options_def initial_transport_def Let_def

text \<open>
  Claim C10, evaluated. The hook connects on mount, the effect runs again (its cleanup
  calls \<open>disconnect\<close>, which closes socket 0, then \<open>connect\<close> creates socket 1), and
  both sockets close without having opened. Each \<open>ws.onclose\<close> schedules a reconnect
  timer and overwrites \<open>reconnectTimeoutRef\<close>, so timer 0 and timer 1 are pending and
  the ref holds timer 1. \<open>disconnect\<close> then clears timer 1 only: timer 0, an automatic
  reconnect scheduled before the call, is still pending after it, and when it fires it
  raises the retry counter to 1 and opens socket 2.
\<close>

theorem C10_orphaned_reconnect_timer_survives_disconnect:
  "(let before = ws_run default_ws_options initial_transport
                   [Connect, Disconnect, Connect, Closed 0, Closed 1];
        after = disconnect before;
        fired = ws_step default_ws_options after (TimerFires 0)
    in timers before
         = [\<lparr>t_delay = 1000, t_callback = AutoReconnect, t_status = Pending\<rparr>,
            \<lparr>t_delay = 1000, t_callback = AutoReconnect, t_status = Pending\<rparr>]
       \<and> reconnectTimeoutRef before = Some 1
       \<and> timer_pending after 0
       \<and> \<not> timer_pending after 1
       \<and> reconnectCountRef after = 0
       \<and> sockets after = [CLOSED, CLOSED]
       \<and> sockets fired = [CLOSED, CLOSED, CONNECTING]
       \<and> wsRef fired = Some 2
       \<and> connectionState fired = Connecting
       \<and> reconnectCountRef fired = 1)"
proof -
  let ?remount = "initial_transport\<lparr>connectionState := Connecting,
        sockets := [CLOSING, CONNECTING], wsRef := Some 1\<rparr>"
  let ?pending = "\<lparr>t_delay = 1000, t_callback = AutoReconnect, t_status = Pending\<rparr>"
  let ?before = "initial_transport\<lparr>connectionState := Disconnected,
        sockets := [CLOSED, CLOSED], wsRef := None,
        timers := [?pending, ?pending], reconnectTimeoutRef := Some 1\<rparr>"
  let ?after = "initial_transport\<lparr>connectionState := Disconnected,
        sockets := [CLOSED, CLOSED], wsRef := None,
        timers := [?pending, ?pending\<lparr>t_status := Cleared\<rparr>], reconnectTimeoutRef := Some 1\<rparr>"
  have mount: "ws_run default_ws_options initial_transport [Connect, Disconnect, Connect] = ?remount"
    by (simp add: transport_eval)
  have closes: "ws_run default_ws_options ?remount [Closed 0, Closed 1] = ?before"
    by (simp add: transport_eval)
  have before: "ws_run default_ws_options initial_transport
                  [Connect, Disconnect, Connect, Closed 0, Closed 1] = ?before"
    using mount closes by (simp add: ws_run_def)
  have after: "disconnect ?before = ?after"
    by (simp add: transport_eval)
  have fired: "ws_step default_ws_options ?after (TimerFires 0)
        = ?after\<lparr>timers := [?pending\<lparr>t_status := Fired\<rparr>, ?pending\<lparr>t_status := Cleared\<rparr>],
            reconnectCountRef := 1, connectionState := Connecting,
            sockets := [CLOSED, CLOSED, CONNECTING], wsRef := Some 2\<rparr>"
    by (simp add: transport_eval)
  show ?thesis
    unfolding Let_def before after fired by (simp add: timer_pending_def initial_transport_def)
qed

lemmas transport_run_eval =
  ws_run_def connect_def disconnect_def reconnect_def ws_onclose_def ws_close_def
  ws_is_open_def readyState_def setTimeout_def clearTimeout_def timer_pending_def
  run_callback_def sendMessage_def ws_onopen_def flush_queue.simps
  default_ws_options_def initial_transport_def Let_def

text \<open>
  Claim C1, evaluated. With the default options the hook connects on mount, the effect
  runs again (\<open>disconnect\<close>, which closes socket 0, then \<open>connect\<close> for socket 1), and
  every socket closes without having opened. \<open>ws.onclose\<close> of the socket that
  \<open>disconnect\<close> closed schedules a reconnect like any other close, so two timers of
  1000 ms are pending with the counter at 0; both fire, each connecting a socket, and the
  closes of these two sockets schedule two timers of 4000 ms, which fire as well: four
  automatic attempts with the delays 1000, 1000, 4000, 4000 and a counter of 4, with no
  call of \<open>reconnect\<close>. In the second run a connection is open, \<open>reconnect\<close> is
  called, the close event of the old socket schedules a reconnect, the new socket opens
  (counter 0) and the stale timer then fires: the counter is 1 while connected, and the
  next unexpected close schedules its first attempt after 2000 ms.
\<close>

theorem C1_overlapping_closes_break_backoff:
  "(let s = ws_run default_ws_options initial_transport
              [Connect, Disconnect, Connect, Closed 0, Closed 1,
               TimerFires 0, TimerFires 1, Closed 2, Closed 3, TimerFires 2, TimerFires 3]
    in map t_delay (timers s) = [1000, 1000, 4000, 4000]
       \<and> map t_callback (timers s) = [AutoReconnect, AutoReconnect, AutoReconnect, AutoReconnect]
       \<and> map t_status (timers s) = [Fired, Fired, Fired, Fired]
       \<and> reconnectCountRef s = 4
       \<and> sockets s = [CLOSED, CLOSED, CLOSED, CLOSED, CONNECTING, CONNECTING])
   \<and> (let t = ws_run default_ws_options initial_transport
                  [Connect, Opened 0, Reconnect, Closed 0, TimerFires 0, Opened 1, TimerFires 1];
            u = ws_step default_ws_options t (Closed 1)
        in connectionState t = Connected
           \<and> sockets t = [CLOSED, OPEN]
           \<and> reconnectCountRef t = 1
           \<and> timers u ! 2
                = \<lparr>t_delay = 2000, t_callback = AutoReconnect, t_status = Pending\<rparr>)"
proof -
  let ?auto = "\<lambda>d st. \<lparr>t_delay = d, t_callback = AutoReconnect, t_status = st\<rparr>"
  let ?manual = "\<lambda>st. \<lparr>t_delay = 100, t_callback = ManualConnect, t_status = st\<rparr>"
  let ?s5 = "initial_transport\<lparr>connectionState := Disconnected,
        sockets := [CLOSED, CLOSED], wsRef := None,
        timers := [?auto 1000 Pending, ?auto 1000 Pending], reconnectTimeoutRef := Some 1\<rparr>"
  let ?s7 = "initial_transport\<lparr>connectionState := Connecting,
        sockets := [CLOSED, CLOSED, CONNECTING, CONNECTING], wsRef := Some 3,
        timers := [?auto 1000 Fired, ?auto 1000 Fired], reconnectTimeoutRef := Some 1,
        reconnectCountRef := 2\<rparr>"
  let ?s9 = "initial_transport\<lparr>connectionState := Disconnected,
        sockets := [CLOSED, CLOSED, CLOSED, CLOSED], wsRef := None,
        timers := [?auto 1000 Fired, ?auto 1000 Fired, ?auto 4000 Pending, ?auto 4000 Pending],
        reconnectTimeoutRef := Some 3, reconnectCountRef := 2\<rparr>"
  let ?s11 = "initial_transport\<lparr>connectionState := Connecting,
        sockets := [CLOSED, CLOSED, CLOSED, CLOSED, CONNECTING, CONNECTING], wsRef := Some 5,
        timers := [?auto 1000 Fired, ?auto 1000 Fired, ?auto 4000 Fired, ?auto 4000 Fired],
        reconnectTimeoutRef := Some 3, reconnectCountRef := 4\<rparr>"
  have a: "ws_run default_ws_options initial_transport
             [Connect, Disconnect, Connect, Closed 0, Closed 1] = ?s5"
    by (simp add: transport_run_eval)
  have b: "ws_run default_ws_options ?s5 [TimerFires 0, TimerFires 1] = ?s7"
    by (simp add: transport_run_eval)
  have c: "ws_run default_ws_options ?s7 [Closed 2, Closed 3] = ?s9"
    by (simp add: transport_run_eval)
  have d: "ws_run default_ws_options ?s9 [TimerFires 2, TimerFires 3] = ?s11"
    by (simp add: transport_run_eval)
  have run1: "ws_run default_ws_options initial_transport
              [Connect, Disconnect, Connect, Closed 0, Closed 1,
               TimerFires 0, TimerFires 1, Closed 2, Closed 3, TimerFires 2, TimerFires 3] = ?s11"
    using a b c d by (simp add: ws_run_def)
  let ?t3 = "initial_transport\<lparr>connectionState := Disconnected,
        sockets := [CLOSING], wsRef := None, timers := [?manual Pending]\<rparr>"
  let ?t6 = "initial_transport\<lparr>connectionState := Connected,
        sockets := [CLOSED, OPEN], wsRef := Some 1,
        timers := [?manual Fired, ?auto 1000 Pending], reconnectTimeoutRef := Some 1\<rparr>"
  let ?t7 = "initial_transport\<lparr>connectionState := Connected,
        sockets := [CLOSED, OPEN], wsRef := Some 1,
        timers := [?manual Fired, ?auto 1000 Fired], reconnectTimeoutRef := Some 1,
        reconnectCountRef := 1\<rparr>"
  have e: "ws_run default_ws_options initial_transport [Connect, Opened 0, Reconnect] = ?t3"
    by (simp add: transport_run_eval)
  have f: "ws_run default_ws_options ?t3 [Closed 0, TimerFires 0, Opened 1] = ?t6"
    by (simp add: transport_run_eval)
  have g: "ws_step default_ws_options ?t6 (TimerFires 1) = ?t7"
    by (simp add: transport_run_eval)
  have run2: "ws_run default_ws_options initial_transport
                [Connect, Opened 0, Reconnect, Closed 0, TimerFires 0, Opened 1, TimerFires 1] = ?t7"
    using e f g by (simp add: ws_run_def)
  have h: "timers (ws_step default_ws_options ?t7 (Closed 1)) ! 2 = ?auto 2000 Pending"
    by (simp add: transport_run_eval)
  show ?thesis
    unfolding Let_def run1 run2 h by (simp add: initial_transport_def)
qed

text \<open>
  Claim C7, evaluated. The hook connects, the effect runs again (\<open>disconnect\<close> closes
  socket 0, \<open>connect\<close> creates socket 1), the close event of socket 0 arrives and its
  \<open>ws.onclose\<close> sets \<open>wsRef.current\<close> to null, then socket 1 opens. The hook reports
  \<open>connected\<close> and socket 1 is open, but \<open>wsRef\<close> is empty: a message sent now is
  not transmitted but queued.
\<close>

theorem C7_send_while_connected_is_queued:
  "(let s = ws_run default_ws_options initial_transport
              [Connect, Disconnect, Connect, Closed 0, Opened 1];
        s' = sendMessage (TextMessage ''x'') s
    in connectionState s = Connected
       \<and> sockets s = [CLOSED, OPEN]
       \<and> wsRef s = None
       \<and> sent s' = []
       \<and> messageQueueRef s' = [TextMessage ''x''])"
proof -
  let ?auto = "\<lparr>t_delay = 1000, t_callback = AutoReconnect, t_status = Pending\<rparr>"
  let ?s4 = "initial_transport\<lparr>connectionState := Disconnected,
        sockets := [CLOSED, CONNECTING], wsRef := None,
        timers := [?auto], reconnectTimeoutRef := Some 0\<rparr>"
  let ?s5 = "initial_transport\<lparr>connectionState := Connected,
        sockets := [CLOSED, OPEN], wsRef := None,
        timers := [?auto], reconnectTimeoutRef := Some 0\<rparr>"
  have a: "ws_run default_ws_options initial_transport [Connect, Disconnect, Connect, Closed 0] = ?s4"
    by (simp add: transport_run_eval)
  have b: "ws_step default_ws_options ?s4 (Opened 1) = ?s5"
    by (simp add: transport_run_eval)
  have run: "ws_run default_ws_options initial_transport
               [Connect, Disconnect, Connect, Closed 0, Opened 1] = ?s5"
    using a b by (simp add: ws_run_def)
  have c: "sendMessage (TextMessage ''x'') ?s5 = ?s5\<lparr>messageQueueRef := [TextMessage ''x'']\<rparr>"
    by (simp add: transport_run_eval)
  show ?thesis
    unfolding Let_def run c by (simp add: initial_transport_def)
qed

subsection \<open>Audio capture and playback\<close>











lemma monitor_frame:
  "mediaRecorderRef (monitorAudioLevel cfg c l s) = mediaRecorderRef s"
  "pendingStopEvents (monitorAudioLevel cfg c l s) = pendingStopEvents s"
  "completed (monitorAudioLevel cfg c l s) = completed s"
  "isRecording (monitorAudioLevel cfg c l s) = isRecording s"
  "intervals (monitorAudioLevel cfg c l s) = intervals s"
  "rafQueue (monitorAudioLevel cfg c l s) =
     (if analyserRef s \<and> c then rafQueue s @ [c] else rafQueue s)"
  by (simp_all add: monitorAudioLevel_def Let_def clear_silence_timer_def split: option.splits)




lemmas recording_eval =
  startRecording_def monitorAudioLevel_def stopRecording_def silence_pending_def
  clear_silence_timer_def clearInterval_def default_audio_options_def DEFAULT_AUDIO_CONFIG_def
  mic_ok_def initial_audio_def Let_def

lemmas playback_eval =
  audio_run_def playAudio_def audio_onended_def audio_onerror_def element_playing_def
  set_element_def default_audio_options_def initial_audio_def Let_def

lemma startRecording_requests_no_frame:
  "\<not> isRecording s \<Longrightarrow> rafQueue (startRecording opts env level s) = rafQueue s"
  by (simp add: startRecording_def Let_def monitor_frame)

lemma animation_frame_without_callback:
  "rafQueue s = [] \<Longrightarrow> audio_step opts s (AnimationFrame level) = s"
  by simp

text \<open>
  Claim C2, evaluated. A recording is started from the initial state with the default
  configuration (threshold \<open>0.01\<close>, duration 1500 ms) and the level at that moment is
  0. \<open>monitorAudioLevel\<close> arms silence timer 0. The closure that ran was created while
  \<open>isRecording\<close> was false, so it registers no animation-frame callback
  (\<open>startRecording_requests_no_frame\<close>): the next frame, at which the level is 50 and
  so above the threshold, is not sampled, the state is unchanged and the timer is still
  armed. When the timer fires, \<open>stopRecording\<close> runs: the recording is stopped by the
  silence detector although the silence was followed by renewed audio before the duration
  had passed.
\<close>

theorem C2_silence_timer_not_cancelled:
  "(let started = audio_step default_audio_options initial_audio (StartRecording mic_ok 0);
        loud = audio_step default_audio_options started (AnimationFrame 50);
        timeout = audio_step default_audio_options loud (SilenceTimeout 0)
    in silence_pending started 0
       \<and> rafQueue started = []
       \<and> loud = started
       \<and> silence_pending loud 0
       \<and> isRecording loud
       \<and> \<not> isRecording timeout
       \<and> mediaRecorderRef timeout = Some RecorderInactive
       \<and> pendingStopEvents timeout = 1)"
proof -
  let ?started = "initial_audio\<lparr>isRecording := True, mediaRecorderRef := Some RecorderRecording,
        audioContextRef := True, analyserRef := True, streamRef := True,
        silenceTimeoutRef := Some 0, chunkIntervalRef := Some 0,
        silenceTimers := [\<lparr>st_delay = 1500, st_status = Pending\<rparr>], intervals := [True],
        liveStreams := 1, openContexts := 1\<rparr>"
  have s: "audio_step default_audio_options initial_audio (StartRecording mic_ok 0) = ?started"
    by (simp add: recording_eval)
  have l: "audio_step default_audio_options ?started (AnimationFrame 50) = ?started"
    by (simp add: recording_eval)
  have t: "audio_step default_audio_options ?started (SilenceTimeout 0)
        = initial_audio\<lparr>mediaRecorderRef := Some RecorderInactive, analyserRef := True,
            silenceTimers := [\<lparr>st_delay = 1500, st_status = Fired\<rparr>], intervals := [False],
            pendingStopEvents := 1\<rparr>"
    by (simp add: recording_eval)
  show ?thesis unfolding Let_def s l t by (simp add: initial_audio_def silence_pending_def)
qed

text \<open>
  Claim C4, evaluated. Payload \<open>AAAA\<close> is playing and \<open>BBBB\<close> is queued. When the
  element fails, \<open>audio.onerror\<close> records the error and resets \<open>isPlaying\<close> and
  \<open>currentAudioRef\<close>, but it does not take the next payload from the queue:
  \<open>BBBB\<close> stays queued and nothing plays. When the element ends instead,
  \<open>audio.onended\<close> starts \<open>BBBB\<close>.
\<close>

theorem C4_playback_error_stalls_queue:
  "(let failed = audio_run default_audio_options initial_audio
                   [PlayAudio ''AAAA'', PlayAudio ''BBBB'', PlaybackError 0];
        ended = audio_run default_audio_options initial_audio
                   [PlayAudio ''AAAA'', PlayAudio ''BBBB'', Ended 0]
    in elements failed = [(''AAAA'', Broken)]
       \<and> audioQueueRef failed = [''BBBB'']
       \<and> \<not> isPlaying failed
       \<and> currentAudioRef failed = None
       \<and> au_error failed = Some ''Audio playback failed''
       \<and> elements ended = [(''AAAA'', Finished), (''BBBB'', Playing)]
       \<and> audioQueueRef ended = []
       \<and> isPlaying ended)"
proof -
  have f: "audio_run default_audio_options initial_audio
             [PlayAudio ''AAAA'', PlayAudio ''BBBB'', PlaybackError 0]
           = initial_audio\<lparr>isPlaying := False, au_error := Some ''Audio playback failed'',
               elements := [(''AAAA'', Broken)], audioQueueRef := [''BBBB''],
               currentAudioRef := None, thrown := [''Audio playback failed'']\<rparr>"
    by (simp add: playback_eval)
  have e: "audio_run default_audio_options initial_audio
             [PlayAudio ''AAAA'', PlayAudio ''BBBB'', Ended 0]
           = initial_audio\<lparr>isPlaying := True, au_error := None,
               elements := [(''AAAA'', Finished), (''BBBB'', Playing)], audioQueueRef := [],
               currentAudioRef := Some 1\<rparr>"
    by (simp add: playback_eval)
  show ?thesis unfolding f e by (simp add: initial_audio_def)
qed

lemma playback_inv_initial: "playback_inv opts initial_audio"
  by (simp add: playback_inv_def initial_audio_def)

lemma playAudio_queue:
  "isPlaying s \<Longrightarrow>
   elements (playAudio opts (isPlaying s) b s) = elements s
   \<and> audioQueueRef (playAudio opts (isPlaying s) b s) = audioQueueRef s @ [b]
   \<and> isPlaying (playAudio opts (isPlaying s) b s)"
  by (simp add: playAudio_def Let_def)

lemma playAudio_start:
  "atob_ok opts b \<Longrightarrow>
   elements (playAudio opts False b s) = elements s @ [(b, Playing)]
   \<and> audioQueueRef (playAudio opts False b s) = audioQueueRef s
   \<and> isPlaying (playAudio opts False b s)"
  by (simp add: playAudio_def Let_def)

lemma playback_inv_step:
  assumes "playback_inv opts s" "playback_event opts e"
  shows "playback_inv opts (audio_step opts s e)
       \<and> map fst (elements (audio_step opts s e)) @ audioQueueRef (audio_step opts s e)
           = map fst (elements s) @ audioQueueRef s @ enqueued [e]"
proof (cases e)
  case (PlayAudio b)
  then have b: "b \<noteq> []" "atob_ok opts b" using assms(2) by simp_all
  show ?thesis
  proof (cases "isPlaying s")
    case True
    from playAudio_queue [OF True, of opts b] assms(1) b True show ?thesis
      by (simp add: PlayAudio playback_inv_def)
  next
    case False
    then have q: "audioQueueRef s = []" using assms(1) by (simp add: playback_inv_def)
    have fin: "\<forall>e \<in> set (elements s). snd e = Finished"
    proof (cases "elements s = []")
      case True
      then show ?thesis by simp
    next
      case ne: False
      then have "snd (last (elements s)) = Finished"
        using assms(1) False by (cases "snd (last (elements s))") (simp_all add: playback_inv_def)
      moreover have "\<forall>e \<in> set (butlast (elements s)). snd e = Finished"
        using assms(1) by (simp add: playback_inv_def)
      moreover have "elements s = butlast (elements s) @ [last (elements s)]"
        using ne by simp
      ultimately show ?thesis
        by (metis Un_iff empty_iff empty_set set_ConsD set_append)
    qed
    from playAudio_start [OF b(2), of s] fin q False show ?thesis
      by (simp add: PlayAudio playback_inv_def)
  qed
next
  case (Ended i)
  show ?thesis
  proof (cases "element_playing s i")
    case False
    then show ?thesis using assms(1) by (simp add: Ended)
  next
    case True
    then have i: "i < length (elements s)" "snd (elements s ! i) = Playing"
      by (simp_all add: element_playing_def)
    have ne: "elements s \<noteq> []" using i by auto
    have last_i: "i = length (elements s) - 1"
    proof (rule ccontr)
      assume "i \<noteq> length (elements s) - 1"
      then have "i < length (butlast (elements s))" using i by simp
      then have "elements s ! i \<in> set (butlast (elements s))"
        by (metis nth_butlast nth_mem)
      then have "snd (elements s ! i) = Finished"
        using assms(1) by (simp add: playback_inv_def)
      then show False using i by simp
    qed
    define es where "es = (elements s)[i := (fst (elements s ! i), Finished)]"
    have es_last: "es = butlast (elements s) @ [(fst (last (elements s)), Finished)]"
      unfolding es_def last_i using ne
      by (metis append_butlast_last_id last_conv_nth length_butlast list_update_length)
    have fin: "\<forall>e \<in> set es. snd e = Finished"
      using assms(1) unfolding es_last by (auto simp: playback_inv_def)
    have fst_es: "map fst es = map fst (elements s)"
      unfolding es_def by (simp add: map_update list_update_same_conv i)
    let ?s1 = "(set_element i Finished s)\<lparr>isPlaying := False, currentAudioRef := None\<rparr>"
    have s1: "elements ?s1 = es" "audioQueueRef ?s1 = audioQueueRef s"
      by (simp_all add: set_element_def es_def)
    show ?thesis
    proof (cases "audioQueueRef s")
      case Nil
      then have st: "audio_step opts s (Ended i) = ?s1"
        using True by (simp add: audio_onended_def Let_def set_element_def)
      show ?thesis
        unfolding Ended st using fin fst_es Nil s1 es_last by (simp add: playback_inv_def)
    next
      case (Cons b rest)
      then have b: "b \<noteq> []" "atob_ok opts b" "\<forall>b \<in> set rest. b \<noteq> [] \<and> atob_ok opts b"
        using assms(1) by (simp_all add: playback_inv_def)
      let ?s2 = "?s1\<lparr>audioQueueRef := rest\<rparr>"
      have st: "audio_step opts s (Ended i) = playAudio opts False b ?s2"
        using True Cons b(1) by (simp add: audio_onended_def Let_def set_element_def)
      have s2: "elements ?s2 = es" "audioQueueRef ?s2 = rest"
        by (simp_all add: set_element_def es_def)
      from playAudio_start [OF b(2), of ?s2] s2 fin fst_es b(3) Cons show ?thesis
        unfolding Ended st by (simp add: playback_inv_def)
    qed
  qed
qed (use assms(2) in simp_all)

lemma playback_inv_run:
  "playback_inv opts s \<Longrightarrow> \<forall>e \<in> set es. playback_event opts e \<Longrightarrow>
   playback_inv opts (audio_run opts s es)
   \<and> map fst (elements (audio_run opts s es)) @ audioQueueRef (audio_run opts s es)
       = map fst (elements s) @ audioQueueRef s @ enqueued es"
proof (induction es arbitrary: s)
  case Nil
  then show ?case by (simp add: audio_run_def)
next
  case (Cons e es)
  have e: "playback_event opts e" and es: "\<forall>e \<in> set es. playback_event opts e"
    using Cons.prems(2) by simp_all
  note st = playback_inv_step [OF Cons.prems(1) e]
  from Cons.IH [OF conjunct1 [OF st] es] conjunct2 [OF st]
  have "playback_inv opts (audio_run opts (audio_step opts s e) es)"
    and "map fst (elements (audio_run opts (audio_step opts s e) es))
          @ audioQueueRef (audio_run opts (audio_step opts s e) es)
        = map fst (elements s) @ audioQueueRef s @ enqueued [e] @ enqueued es"
    by simp_all
  moreover have "enqueued [e] @ enqueued es = enqueued (e # es)"
    by (cases e) simp_all
  moreover have "audio_run opts s (e # es) = audio_run opts (audio_step opts s e) es"
    by (simp add: audio_run_def)
  ultimately show ?case by simp
qed

lemma playback_inv_playing_last:
  assumes "playback_inv opts s" "element_playing s i"
  shows "Suc i = length (elements s)"
proof (rule ccontr)
  assume n: "Suc i \<noteq> length (elements s)"
  have i: "i < length (elements s)" "snd (elements s ! i) = Playing"
    using assms(2) by (simp_all add: element_playing_def)
  then have "i < length (butlast (elements s))" using n by simp
  then have "elements s ! i \<in> set (butlast (elements s))"
    by (metis nth_butlast nth_mem)
  then have "snd (elements s ! i) = Finished"
    using assms(1) by (simp add: playback_inv_def)
  then show False using i by simp
qed

lemma playback_inv_earlier_finished:
  assumes "playback_inv opts s" "Suc i < length (elements s)"
  shows "snd (elements s ! i) = Finished"
proof -
  have "i < length (butlast (elements s))" using assms(2) by simp
  then have "elements s ! i \<in> set (butlast (elements s))"
    by (metis nth_butlast nth_mem)
  then show ?thesis using assms(1) by (simp add: playback_inv_def)
qed

lemma playback_inv_isPlaying:
  assumes "playback_inv opts s"
  shows "isPlaying s \<longleftrightarrow> (\<exists>i. element_playing s i)"
proof
  assume "isPlaying s"
  then have "elements s \<noteq> []" "snd (last (elements s)) = Playing"
    using assms by (simp_all add: playback_inv_def)
  then have "element_playing s (length (elements s) - 1)"
    by (simp add: element_playing_def last_conv_nth)
  then show "\<exists>i. element_playing s i" ..
next
  assume "\<exists>i. element_playing s i"
  then obtain i where i: "element_playing s i" ..
  have l: "Suc i = length (elements s)" by (rule playback_inv_playing_last [OF assms i])
  then have ne: "elements s \<noteq> []" by auto
  have "i = length (elements s) - 1" using l by simp
  then have "last (elements s) = elements s ! i" using ne by (simp add: last_conv_nth)
  then have "snd (last (elements s)) = Playing" using i by (simp add: element_playing_def)
  note this ne
  then show "isPlaying s" using assms by (simp add: playback_inv_def)
qed

text \<open>
  Undisturbed playback: for every list of calls of \<open>playAudio\<close> made through an
  up-to-date callback, with non-empty payloads that \<open>atob\<close> decodes, interleaved in any
  way with natural ends of the playing element, from the initial state: the payloads of
  the elements created, in creation order, followed by the queue, are the payloads in
  call order; \<open>isPlaying\<close> is true if and only if some element is playing; at most one
  element is playing; every element but the last created has ended; a payload waits in
  the queue only while an element is playing.
\<close>

lemma undisturbed_playback_fifo:
  assumes "\<forall>e \<in> set es. playback_event opts e"
  shows "map fst (elements (audio_run opts initial_audio es))
           @ audioQueueRef (audio_run opts initial_audio es) = enqueued es
       \<and> (isPlaying (audio_run opts initial_audio es)
            \<longleftrightarrow> (\<exists>i. element_playing (audio_run opts initial_audio es) i))
       \<and> (\<forall>i j. element_playing (audio_run opts initial_audio es) i
                \<and> element_playing (audio_run opts initial_audio es) j \<longrightarrow> i = j)
       \<and> (\<forall>i. Suc i < length (elements (audio_run opts initial_audio es)) \<longrightarrow>
                snd (elements (audio_run opts initial_audio es) ! i) = Finished)
       \<and> (audioQueueRef (audio_run opts initial_audio es) \<noteq> [] \<longrightarrow>
            isPlaying (audio_run opts initial_audio es))"
proof -
  let ?s = "audio_run opts initial_audio es"
  from playback_inv_run [OF playback_inv_initial assms]
  have inv: "playback_inv opts ?s"
    and fifo: "map fst (elements ?s) @ audioQueueRef ?s = enqueued es"
    by (simp_all add: initial_audio_def)
  have uniq: "\<forall>i j. element_playing ?s i \<and> element_playing ?s j \<longrightarrow> i = j"
    using playback_inv_playing_last [OF inv] by (metis Suc_inject)
  have earlier: "\<forall>i. Suc i < length (elements ?s) \<longrightarrow> snd (elements ?s ! i) = Finished"
    using playback_inv_earlier_finished [OF inv] by blast
  have drained: "audioQueueRef ?s \<noteq> [] \<longrightarrow> isPlaying ?s"
    using inv by (auto simp: playback_inv_def)
  from fifo playback_inv_isPlaying [OF inv] uniq earlier drained show ?thesis by blast
qed

text \<open>
  Claim C3, evaluated. In the first run \<open>playAudio\<close> is called twice through the
  callback of the first render, whose closure captured \<open>isPlaying = false\<close>: both calls
  create an element and the two payloads play at the same time. In the second run
  \<open>AAAA\<close> plays and \<open>BBBB\<close> is queued, the playing element fails (the queue is not
  advanced), \<open>CCCC\<close> is passed while nothing plays and starts at once, and \<open>BBBB\<close>
  starts only when \<open>CCCC\<close> has ended: the payloads were passed in the order
  \<open>AAAA\<close>, \<open>BBBB\<close>, \<open>CCCC\<close> and started in the order \<open>AAAA\<close>, \<open>CCCC\<close>,
  \<open>BBBB\<close>.
\<close>

theorem C3_concurrent_and_reordered_playback:
  "(let stale = audio_run default_audio_options initial_audio
                  [PlayAudioCaptured False ''AAAA'', PlayAudioCaptured False ''BBBB''];
        reordered = audio_run default_audio_options initial_audio
                  [PlayAudio ''AAAA'', PlayAudio ''BBBB'', PlaybackError 0,
                   PlayAudio ''CCCC'', Ended 1]
    in elements stale = [(''AAAA'', Playing), (''BBBB'', Playing)]
       \<and> audioQueueRef stale = []
       \<and> element_playing stale 0 \<and> element_playing stale 1
       \<and> elements reordered = [(''AAAA'', Broken), (''CCCC'', Finished), (''BBBB'', Playing)]
       \<and> enqueued [PlayAudio ''AAAA'', PlayAudio ''BBBB'', PlaybackError 0,
                    PlayAudio ''CCCC'', Ended 1] = [''AAAA'', ''BBBB'', ''CCCC''])"
proof -
  have st: "audio_run default_audio_options initial_audio
              [PlayAudioCaptured False ''AAAA'', PlayAudioCaptured False ''BBBB'']
            = initial_audio\<lparr>isPlaying := True, au_error := None,
                elements := [(''AAAA'', Playing), (''BBBB'', Playing)],
                currentAudioRef := Some 1\<rparr>"
    by (simp add: playback_eval)
  let ?failed = "initial_audio\<lparr>isPlaying := False, au_error := Some ''Audio playback failed'',
               elements := [(''AAAA'', Broken)], audioQueueRef := [''BBBB''],
               currentAudioRef := None, thrown := [''Audio playback failed'']\<rparr>"
  have f: "audio_run default_audio_options initial_audio
             [PlayAudio ''AAAA'', PlayAudio ''BBBB'', PlaybackError 0] = ?failed"
    by (simp add: playback_eval)
  have r: "audio_run default_audio_options ?failed [PlayAudio ''CCCC'', Ended 1]
           = initial_audio\<lparr>isPlaying := True, au_error := None,
               elements := [(''AAAA'', Broken), (''CCCC'', Finished), (''BBBB'', Playing)],
               audioQueueRef := [], currentAudioRef := Some 2,
               thrown := [''Audio playback failed'']\<rparr>"
    by (simp add: playback_eval)
  have re: "audio_run default_audio_options initial_audio
             [PlayAudio ''AAAA'', PlayAudio ''BBBB'', PlaybackError 0, PlayAudio ''CCCC'', Ended 1]
           = initial_audio\<lparr>isPlaying := True, au_error := None,
               elements := [(''AAAA'', Broken), (''CCCC'', Finished), (''BBBB'', Playing)],
               audioQueueRef := [], currentAudioRef := Some 2,
               thrown := [''Audio playback failed'']\<rparr>"
    using f r by (simp add: audio_run_def)
  show ?thesis
    unfolding Let_def st re by (simp add: initial_audio_def element_playing_def)
qed

subsection \<open>The page's handlers\<close>

lemma truthy_simps:
  "truthy None = False" "truthy (Some []) = False" "truthy (Some (x # xs)) = True"
  "str (Some v) = v"
  by (simp_all add: truthy_def str_def)

lemma truthy_Some: "v \<noteq> [] \<Longrightarrow> truthy (Some v)"
  by (cases v) (simp_all add: truthy_def)

lemma onMessage_transcription:
  "txt \<noteq> [] \<Longrightarrow>
   ws_onmessage now (transcription_message txt) c = c\<lparr>currentTranscription := txt\<rparr>"
  by (simp add: ws_onmessage_def onMessage_def transcription_message_def truthy_Some
      truthy_simps Let_def)

lemma onMessage_response_both_ids:
  assumes "txt \<noteq> []" "seg \<noteq> []" "cid \<noteq> []" "lid \<noteq> []"
  shows "ws_onmessage now (response_message txt seg cid (Some lid)) c =
           c\<lparr>transcriptions := transcriptions c
                 @ [\<lparr>e_id = (now, ''-agent''), e_timestamp = now, e_speaker = Agent,
                      e_text = txt, e_state = Speaking\<rparr>],
             conversationId := Some cid, leadId := Some lid,
             saveSession_calls := saveSession_calls c @ [(cid, Some lid)],
             playAudio_calls := playAudio_calls c @ [seg],
             currentTranscription := []\<rparr>"
  using assms
  by (simp add: ws_onmessage_def onMessage_def response_message_def or_unbound_prev_def
      truthy_Some truthy_simps Let_def)

lemma onMessage_response_without_lead_id:
  assumes "txt \<noteq> []"
  shows "onMessage now (response_message txt seg cid None) c = Inl (ReferenceError ''prev'')"
    and "ws_onmessage now (response_message txt seg cid None) c = c"
  using assms
  by (simp_all add: ws_onmessage_def onMessage_def response_message_def or_unbound_prev_def
      truthy_Some truthy_simps Let_def split: sum.splits)

lemma ola_nonempty: "ola \<noteq> []"
  by (simp add: ola_def)

lemma ids_never_nulled:
  "conversationId c \<noteq> None \<Longrightarrow> conversationId (ws_onmessage now message c) \<noteq> None"
  "leadId c \<noteq> None \<Longrightarrow> leadId (ws_onmessage now message c) \<noteq> None"
  by (simp_all add: ws_onmessage_def onMessage_def onStateChange_def or_unbound_prev_def Let_def
      split: sum.splits option.splits)

text \<open>
  Claim C5 as stated fails. From the initial state (empty log), the inbound sequence of a
  transcription \<open>oi\<close> and a response with text, audio payload \<open>AAAA\<close> and conversation
  id \<open>c1\<close> (no other field) does not leave a log of two entries, user then agent, with
  conversation id \<open>c1\<close> and one \<open>playAudio\<close> call: a transcription message only sets
  \<open>currentTranscription\<close>, and the response branch has not appended its entry when
  \<open>message.lead_id || prev.leadId\<close> raises.
\<close>

theorem C5_inbound_only_counterexample:
  "\<not> (let c = inbound initial_controller
                [(1, transcription_message ''oi''),
                 (2, response_message ola ''AAAA'' ''c1'' None)]
       in length (transcriptions c) = 2
          \<and> map e_speaker (transcriptions c) = [User, Agent]
          \<and> conversationId c = Some ''c1''
          \<and> playAudio_calls c = [''AAAA''])"
  by (simp add: onMessage_transcription onMessage_response_without_lead_id ola_nonempty
      initial_controller_def)

text \<open>
  Claim C5, amended. The user entry is appended by \<open>onRecordingComplete\<close>, not by a
  transcription message. From the initial state (empty log), when the capture-complete
  callback has run and then the inbound sequence of a transcription \<open>oi\<close> and a
  response with text, non-empty audio payload \<open>seg\<close>, conversation id \<open>c1\<close> and a
  non-empty lead id is processed, the log has exactly 2 entries, a user entry followed by
  an agent entry, \<open>conversationId\<close> is \<open>c1\<close> and \<open>playAudio\<close> has been called
  exactly once, with \<open>seg\<close>. The two messages alone append exactly the agent entry.
\<close>

theorem C5_capture_then_inbound:
  assumes "seg \<noteq> []" and "lid \<noteq> []"
  shows "(let c = inbound (onRecordingComplete t0 (currentTranscription initial_controller)
                             audioData initial_controller)
                    [(t1, transcription_message ''oi''),
                     (t2, response_message ola seg ''c1'' (Some lid))]
          in length (transcriptions c) = 2
             \<and> map e_speaker (transcriptions c) = [User, Agent]
             \<and> conversationId c = Some ''c1''
             \<and> playAudio_calls c = [seg])
       \<and> (let c = inbound initial_controller
                    [(t1, transcription_message ''oi''),
                     (t2, response_message ola seg ''c1'' (Some lid))]
          in map e_speaker (transcriptions c) = [Agent]
             \<and> conversationId c = Some ''c1''
             \<and> playAudio_calls c = [seg])"
  using assms
  by (simp add: onMessage_transcription onMessage_response_both_ids ola_nonempty
      onRecordingComplete_def initial_controller_def Let_def)

text \<open>Claim C5, amended, at payload \<open>AAAA\<close> and lead id \<open>l1\<close>.\<close>

theorem C5_capture_then_inbound_witness:
  "(let c = inbound (onRecordingComplete 0 (currentTranscription initial_controller)
                       ''UklGRg=='' initial_controller)
              [(1, transcription_message ''oi''),
               (2, response_message ola ''AAAA'' ''c1'' (Some ''l1''))]
    in map e_speaker (transcriptions c) = [User, Agent]
       \<and> conversationId c = Some ''c1''
       \<and> playAudio_calls c = [''AAAA''])"
proof -
  have s: "''AAAA'' \<noteq> []" and l: "''l1'' \<noteq> []" by simp_all
  from C5_capture_then_inbound [OF s l, of 0 "''UklGRg==''" 1 2] show ?thesis
    unfolding Let_def by blast
qed

text \<open>
  Claim C6, evaluated. The local state holds no conversation id and no lead id. A response
  with text, audio payload and conversation id \<open>c1\<close> but no lead id arrives. Computing
  \<open>message.lead_id || prev.leadId\<close> raises a \<open>ReferenceError\<close> before any state is
  updated, \<open>ws.onmessage\<close> catches it, and the conversation id the server sent is not
  adopted: \<open>conversationId\<close> is still absent, no entry is appended and no audio is
  played.
\<close>

theorem C6_response_without_lead_id_rejected:
  "onMessage 2 (response_message ola ''AAAA'' ''c1'' None) initial_controller
     = Inl (ReferenceError ''prev'')
   \<and> conversationId (ws_onmessage 2 (response_message ola ''AAAA'' ''c1'' None)
        initial_controller) = None
   \<and> transcriptions (ws_onmessage 2 (response_message ola ''AAAA'' ''c1'' None)
        initial_controller) = []
   \<and> playAudio_calls (ws_onmessage 2 (response_message ola ''AAAA'' ''c1'' None)
        initial_controller) = []"
proof -
  have raised: "onMessage 2 (response_message ola ''AAAA'' ''c1'' None) initial_controller
                  = Inl (ReferenceError ''prev'')"
    by (rule onMessage_response_without_lead_id(1) [OF ola_nonempty])
  have caught: "ws_onmessage 2 (response_message ola ''AAAA'' ''c1'' None) initial_controller
                  = initial_controller"
    by (rule onMessage_response_without_lead_id(2) [OF ola_nonempty])
  show ?thesis
    unfolding caught using raised by (simp add: initial_controller_def)
qed

end
